theory Spec2Isabelle
  imports Complex_Main "HOL-Library.Multiset"
begin

section \<open>The task store of \<^verbatim>\<open>src/services/databaseService.ts\<close>\<close>

text \<open>
  The class \<^verbatim>\<open>DatabaseService\<close> keeps task records either in the browser's
  \<^verbatim>\<open>localStorage\<close> (one JSON array under the key \<^verbatim>\<open>ionic-tasks\<close>) or in an
  SQLite table, and chooses between the two with the flag \<^verbatim>\<open>isWeb\<close> inside every
  method. The model follows the class method by method. Each method takes the state of
  the service and returns either the error it throws or its result and the new state.

  What lies outside the repository is modelled as follows.
  \<^item> A JavaScript number is a \<open>real\<close>: identifiers are finite. The sum
    \<^verbatim>\<open>Date.now() + Math.random()\<close> is rounded to a double, to the nearest one and to
    the even one on a tie (function \<open>to_double\<close>).
  \<^item> A point in time is an \<open>int\<close> (a reading of the clock). The texts that
    \<^verbatim>\<open>toISOString\<close> and \<^verbatim>\<open>CURRENT_TIMESTAMP\<close> produce have a fixed width, so
    their order as texts is the order of the readings.
  \<^item> The text stored in \<^verbatim>\<open>localStorage\<close> is modelled by what \<^verbatim>\<open>JSON.parse\<close>
    makes of it: it raises, or it returns the array that \<^verbatim>\<open>JSON.stringify\<close> wrote.
  \<^item> \<^verbatim>\<open>localStorage.setItem\<close>, \<^verbatim>\<open>localStorage.removeItem\<close> and the SQLite
    driver's \<^verbatim>\<open>run\<close> and \<^verbatim>\<open>query\<close> complete without raising; the
    \<^verbatim>\<open>catch\<close> blocks around them only log and raise again. The calls whose failure
    the class handles itself are modelled with their failure: \<^verbatim>\<open>JSON.parse\<close>,
    \<^verbatim>\<open>fetch\<close>, \<^verbatim>\<open>blob\<close>, the \<^verbatim>\<open>FileReader\<close> and the driver's
    \<^verbatim>\<open>close\<close>.
  \<^item> The SQL statements have their SQLite meaning, written out in the functions
    \<open>sql_insert\<close>, \<open>sql_select\<close>, \<open>sql_delete\<close>, \<open>sql_update\<close> and
    \<open>sql_toggle\<close>.
\<close>

subsection \<open>Records, errors and the environment\<close>

text \<open>
  An object of the interface \<^verbatim>\<open>ITask\<close>, as it is at run time: a property that is
  missing (or \<^verbatim>\<open>undefined\<close>) is \<open>None\<close>. The interface declares \<^verbatim>\<open>text\<close> and
  \<^verbatim>\<open>image_filepath\<close> as required, but \<^verbatim>\<open>updateTask\<close> can erase them from a stored
  object (see \<open>spread\<close>), so they are optional here as well. \<^verbatim>\<open>completed\<close> is
  kept as a truth value: the class reads it only through \<^verbatim>\<open>!\<close> and
  \<^verbatim>\<open>Boolean\<close>, where a missing key behaves as \<^verbatim>\<open>false\<close>.
\<close>

record ITask =
  id_t :: "real option"
  text_t :: "string option"
  image_filepath :: "string option"
  image_webview_path :: "string option"
  image_base64 :: "string option"
  completed :: bool
  created_at :: "int option"

text \<open>\<^verbatim>\<open>Omit<ITask, 'id' | 'created_at'>\<close>, the argument of \<^verbatim>\<open>addTask\<close>.\<close>

record NewTask =
  new_text :: string
  new_image_filepath :: string
  new_image_webview_path :: "string option"
  new_image_base64 :: "string option"
  new_completed :: bool

text \<open>
  \<^verbatim>\<open>Partial<Omit<ITask, 'id' | 'created_at'>>\<close>, the argument of \<^verbatim>\<open>updateTask\<close>.
  Each property is absent, or present with the value \<^verbatim>\<open>undefined\<close> (which the type
  allows), or present with a value.
\<close>

datatype 'a property = Absent | Undefined | Value 'a

record TaskUpdate =
  u_text :: "string property"
  u_image_filepath :: "string property"
  u_image_webview_path :: "string property"
  u_image_base64 :: "string property"
  u_completed :: "bool property"

text \<open>
  The errors the class throws: \<open>StorageUnavailable\<close> is
  \<^verbatim>\<open>'LocalStorage is not available'\<close> and \<^verbatim>\<open>'SQLite not initialized'\<close>,
  \<open>NotInitialized\<close> is \<^verbatim>\<open>'SQLite database not initialized'\<close>, \<open>NotFound\<close> is
  \<^verbatim>\<open>'Task not found'\<close>, and \<open>ReaderFailed\<close> is the rejection of the promise
  around the \<^verbatim>\<open>FileReader\<close> (\<^verbatim>\<open>reader.onerror = reject\<close>).
\<close>

datatype error = StorageUnavailable | NotInitialized | NotFound | ReaderFailed

text \<open>What reading an image path does: the first step that fails, or the data URL.\<close>

datatype image_read = FetchRejects | BlobRejects | ReaderErrors | ReaderLoads string

text \<open>
  What one call of \<^verbatim>\<open>addTask\<close> reads from its surroundings. \<^verbatim>\<open>Math.random()\<close>
  is a multiple of \<^verbatim>\<open>2^-53\<close>, at least 0 and below 1.
\<close>

record environment =
  date_now :: int
  math_random :: real
  new_date :: int
  fetch_image :: "string \<Rightarrow> image_read"
  current_timestamp :: int

text \<open>A row of the table \<^verbatim>\<open>tasks\<close>, and the database file: its rows in the order of
  their rowids, and the largest rowid ever given (\<^verbatim>\<open>AUTOINCREMENT\<close>).\<close>

record row =
  col_id :: int
  col_text :: string
  col_image_filepath :: string
  col_image_webview_path :: string
  col_image_base64 :: string
  col_completed :: int
  col_created_at :: int

record database =
  rows :: "row list"
  sqlite_sequence :: int

text \<open>The item under \<^verbatim>\<open>storageKey\<close>, as \<^verbatim>\<open>JSON.parse\<close> sees it.\<close>

datatype stored = Unparsable | Document "ITask list"

text \<open>
  The state of the service: the fields \<^verbatim>\<open>isWeb\<close>, \<^verbatim>\<open>sqlite\<close> and \<^verbatim>\<open>db\<close> of the
  class (the last two as "is not null"), the item in \<^verbatim>\<open>localStorage\<close>, the file
  \<^verbatim>\<open>tasks.db\<close>, and two counters of the writes issued so far:
  \<^verbatim>\<open>localStorage.setItem\<close> calls and \<^verbatim>\<open>db.run\<close> calls.
\<close>

record DatabaseService =
  isWeb :: bool
  sqlite :: bool
  db :: bool
  storage :: "stored option"
  tasks_db :: database
  setItem_calls :: nat
  run_calls :: nat

subsection \<open>JavaScript and SQL helpers\<close>

text \<open>\<^verbatim>\<open>if (v)\<close> on an optional string: defined and not empty.\<close>

definition truthy :: "string option \<Rightarrow> bool" where
  "truthy v = (case v of None \<Rightarrow> False | Some s \<Rightarrow> s \<noteq> [])"

text \<open>\<^verbatim>\<open>a || b\<close> on optional strings, and \<^verbatim>\<open>a || ''\<close>.\<close>

definition js_or :: "string option \<Rightarrow> string option \<Rightarrow> string option" where
  "js_or a b = (if truthy a then a else b)"

definition or_empty :: "string option \<Rightarrow> string" where
  "or_empty a = (case js_or a (Some []) of None \<Rightarrow> [] | Some s \<Rightarrow> s)"

text \<open>
  The double nearest to a real number, the even one on a tie: a double has 53 binary
  digits, so from \<^verbatim>\<open>2^e\<close> up to \<^verbatim>\<open>2^(e+1)\<close> the doubles are the multiples of
  \<^verbatim>\<open>2^(e-52)\<close>. A number of magnitude below 1 is kept: there the model only meets
  multiples of \<^verbatim>\<open>2^-53\<close>, which are doubles. Overflow is out of reach of a clock
  reading.
\<close>

fun binary_digits :: "nat \<Rightarrow> nat" where
  "binary_digits n = (if n = 0 then 0 else Suc (binary_digits (n div 2)))"

declare binary_digits.simps [simp del]

definition round_half_even :: "real \<Rightarrow> int" where
  "round_half_even q =
     (let f = \<lfloor>q\<rfloor>; d = q - real_of_int f
      in if d < 1 / 2 then f else if 1 / 2 < d then f + 1
         else if even f then f else f + 1)"

definition to_double :: "real \<Rightarrow> real" where
  "to_double x =
     (if \<bar>x\<bar> < 1 then x
      else (let e = binary_digits (nat \<lfloor>\<bar>x\<bar>\<rfloor>) - 1;
                ulp = 2 ^ e / 2 ^ 52
            in sgn x * (real_of_int (round_half_even (\<bar>x\<bar> / ulp)) * ulp)))"

text \<open>\<^verbatim>\<open>Array.prototype.findIndex\<close>; \<open>None\<close> is \<^verbatim>\<open>-1\<close>.\<close>

primrec findIndex :: "('a \<Rightarrow> bool) \<Rightarrow> 'a list \<Rightarrow> nat option" where
  "findIndex P [] = None"
| "findIndex P (x # xs) = (if P x then Some 0 else map_option Suc (findIndex P xs))"

text \<open>
  \<^verbatim>\<open>INSERT\<close> into a table whose key is \<^verbatim>\<open>INTEGER PRIMARY KEY AUTOINCREMENT\<close>: the new
  rowid is one more than the largest rowid the table ever had, and at least 1.
\<close>

definition next_rowid :: "database \<Rightarrow> int" where
  "next_rowid d = max (sqlite_sequence d) (fold max (map col_id (rows d)) 0) + 1"

definition sql_insert ::
  "string \<Rightarrow> string \<Rightarrow> string \<Rightarrow> string \<Rightarrow> int \<Rightarrow> int \<Rightarrow> database \<Rightarrow> int \<times> database" where
  "sql_insert txt fp wp b64 c now d =
     (let i = next_rowid d in
      (i, d\<lparr>rows := rows d @
                [\<lparr>col_id = i, col_text = txt, col_image_filepath = fp,
                  col_image_webview_path = wp, col_image_base64 = b64,
                  col_completed = c, col_created_at = now\<rparr>],
             sqlite_sequence := i\<rparr>))"

text \<open>
  \<^verbatim>\<open>SELECT ... ORDER BY created_at DESC\<close>. SQL leaves the order of rows with equal
  keys open; the model keeps them in the order of the scan, by ascending rowid, which is
  what a stable sort of the scanned rows gives.
\<close>

definition sql_select :: "database \<Rightarrow> row list" where
  "sql_select d = sort_key (\<lambda>r. - col_created_at r) (rows d)"

text \<open>\<^verbatim>\<open>DELETE FROM tasks WHERE id = ?\<close>, the parameter being a JavaScript number.\<close>

definition sql_delete :: "real \<Rightarrow> database \<Rightarrow> database" where
  "sql_delete i d = d\<lparr>rows := filter (\<lambda>r. real_of_int (col_id r) \<noteq> i) (rows d)\<rparr>"

text \<open>The assignments of an \<^verbatim>\<open>UPDATE tasks SET ... WHERE id = ?\<close>.\<close>

datatype assignment =
  SetText string | SetImageFilepath string | SetImageWebviewPath string | SetCompleted int

fun assign :: "assignment \<Rightarrow> row \<Rightarrow> row" where
  "assign (SetText v) r = r\<lparr>col_text := v\<rparr>"
| "assign (SetImageFilepath v) r = r\<lparr>col_image_filepath := v\<rparr>"
| "assign (SetImageWebviewPath v) r = r\<lparr>col_image_webview_path := v\<rparr>"
| "assign (SetCompleted v) r = r\<lparr>col_completed := v\<rparr>"

definition sql_update :: "assignment list \<Rightarrow> real \<Rightarrow> database \<Rightarrow> database" where
  "sql_update set_list i d =
     d\<lparr>rows := map (\<lambda>r. if real_of_int (col_id r) = i then fold assign set_list r else r)
                   (rows d)\<rparr>"

text \<open>\<^verbatim>\<open>UPDATE tasks SET completed = NOT completed WHERE id = ?\<close>.\<close>

definition sql_not :: "int \<Rightarrow> int" where
  "sql_not c = (if c = 0 then 1 else 0)"

definition sql_toggle :: "real \<Rightarrow> database \<Rightarrow> database" where
  "sql_toggle i d =
     d\<lparr>rows := map (\<lambda>r. if real_of_int (col_id r) = i
                         then r\<lparr>col_completed := sql_not (col_completed r)\<rparr> else r)
                   (rows d)\<rparr>"

subsection \<open>The methods of the class\<close>

definition constructor :: "bool \<Rightarrow> stored option \<Rightarrow> database \<Rightarrow> DatabaseService" where
  "constructor web item file =
     \<lparr>isWeb = web, sqlite = (\<not> web), db = False, storage = item, tasks_db = file,
      setItem_calls = 0, run_calls = 0\<rparr>"

text \<open>\<^verbatim>\<open>initializeDatabase\<close>; the argument says whether \<^verbatim>\<open>Storage\<close> is defined.
  \<^verbatim>\<open>CREATE TABLE IF NOT EXISTS\<close> leaves an existing table as it is.\<close>

definition initializeDatabase :: "bool \<Rightarrow> DatabaseService \<Rightarrow> error + DatabaseService" where
  "initializeDatabase storage_defined s =
     (if isWeb s then
        (if \<not> storage_defined then Inl StorageUnavailable else Inr s)
      else if \<not> sqlite s then Inl StorageUnavailable
      else Inr (s\<lparr>db := True\<rparr>))"

definition getStoredTasks :: "DatabaseService \<Rightarrow> ITask list" where
  "getStoredTasks s =
     (case storage s of
        None \<Rightarrow> []
      | Some Unparsable \<Rightarrow> []
      | Some (Document tasks) \<Rightarrow> tasks)"

definition saveTasksToStorage :: "ITask list \<Rightarrow> DatabaseService \<Rightarrow> DatabaseService" where
  "saveTasksToStorage tasks s =
     s\<lparr>storage := Some (Document tasks), setItem_calls := Suc (setItem_calls s)\<rparr>"

definition generateId :: "environment \<Rightarrow> real" where
  "generateId env = to_double (real_of_int (date_now env) + math_random env)"

text \<open>
  \<^verbatim>\<open>convertImageToBase64\<close>. The \<^verbatim>\<open>try\<close> block awaits \<^verbatim>\<open>fetch\<close> and
  \<^verbatim>\<open>blob\<close>, so their rejections reach the \<^verbatim>\<open>catch\<close>, which returns the empty
  string. The promise around the \<^verbatim>\<open>FileReader\<close> is returned without being awaited:
  the \<^verbatim>\<open>try\<close> block is left before that promise settles, and its rejection is the
  rejection of the method.
\<close>

definition convertImageToBase64 :: "(string \<Rightarrow> image_read) \<Rightarrow> string \<Rightarrow> error + string" where
  "convertImageToBase64 fetch imagePath =
     (if imagePath = [] then Inr []
      else if take 5 imagePath = ''data:'' then Inr imagePath
      else (case fetch imagePath of
              FetchRejects \<Rightarrow> Inr []
            | BlobRejects \<Rightarrow> Inr []
            | ReaderErrors \<Rightarrow> Inl ReaderFailed
            | ReaderLoads url \<Rightarrow> Inr url))"

text \<open>The properties that \<^verbatim>\<open>...task\<close> copies from the argument of \<^verbatim>\<open>addTask\<close>.\<close>

definition task_properties :: "NewTask \<Rightarrow> ITask" where
  "task_properties task =
     \<lparr>id_t = None, text_t = Some (new_text task),
      image_filepath = Some (new_image_filepath task),
      image_webview_path = new_image_webview_path task,
      image_base64 = new_image_base64 task,
      completed = new_completed task, created_at = None\<rparr>"

text \<open>
  \<^verbatim>\<open>addTask\<close>. The browser branch spreads the argument and then sets \<^verbatim>\<open>id\<close>,
  \<^verbatim>\<open>created_at\<close>, \<^verbatim>\<open>completed\<close> and \<^verbatim>\<open>image_base64\<close>, so what the argument
  holds in \<^verbatim>\<open>completed\<close> and \<^verbatim>\<open>image_base64\<close> is overwritten.
\<close>

definition addTask ::
  "environment \<Rightarrow> NewTask \<Rightarrow> DatabaseService \<Rightarrow> error + (real \<times> DatabaseService)" where
  "addTask env task s =
     (if isWeb s then
        (let tasks = getStoredTasks s in
         case (if truthy (new_image_webview_path task)
               then convertImageToBase64 (fetch_image env)
                      (or_empty (new_image_webview_path task))
               else Inr []) of
           Inl e \<Rightarrow> Inl e
         | Inr b64 \<Rightarrow>
             (let newTask = (task_properties task)
                              \<lparr>id_t := Some (generateId env),
                               created_at := Some (new_date env),
                               completed := False,
                               image_base64 := Some b64\<rparr>
              in Inr (generateId env, saveTasksToStorage (newTask # tasks) s)))
      else if \<not> db s then Inl NotInitialized
      else
        (let (lastId, d) =
               sql_insert (new_text task) (new_image_filepath task)
                 (or_empty (new_image_webview_path task)) (or_empty (new_image_base64 task)) 0
                 (current_timestamp env) (tasks_db s)
         in Inr (if lastId = 0 then 0 else real_of_int lastId,
                 s\<lparr>tasks_db := d, run_calls := Suc (run_calls s)\<rparr>)))"

text \<open>The object that \<^verbatim>\<open>getAllTasks\<close> builds from a row.\<close>

definition row_task :: "row \<Rightarrow> ITask" where
  "row_task r =
     \<lparr>id_t = Some (real_of_int (col_id r)), text_t = Some (col_text r),
      image_filepath = Some (col_image_filepath r),
      image_webview_path = Some (col_image_webview_path r),
      image_base64 = Some (col_image_base64 r),
      completed = (col_completed r \<noteq> 0),
      created_at = Some (col_created_at r)\<rparr>"

definition getAllTasks :: "DatabaseService \<Rightarrow> error + ITask list" where
  "getAllTasks s =
     (if isWeb s then
        Inr (map (\<lambda>task. task\<lparr>image_webview_path :=
                                 js_or (image_base64 task) (image_webview_path task)\<rparr>)
               (getStoredTasks s))
      else if \<not> db s then Inl NotInitialized
      else Inr (map row_task (sql_select (tasks_db s))))"

definition deleteTask :: "real \<Rightarrow> DatabaseService \<Rightarrow> error + DatabaseService" where
  "deleteTask i s =
     (if isWeb s then
        (let tasks = getStoredTasks s;
             filteredTasks = filter (\<lambda>task. id_t task \<noteq> Some i) tasks
         in Inr (saveTasksToStorage filteredTasks s))
      else if \<not> db s then Inl NotInitialized
      else Inr (s\<lparr>tasks_db := sql_delete i (tasks_db s), run_calls := Suc (run_calls s)\<rparr>))"

text \<open>
  \<^verbatim>\<open>{ ...task, ...updates }\<close>: every property present in \<open>updates\<close> wins, also one
  whose value is \<^verbatim>\<open>undefined\<close>. \<^verbatim>\<open>JSON.stringify\<close> then leaves such a property
  out, so it is missing from the stored object: \<open>None\<close>, and \<open>False\<close> for
  \<^verbatim>\<open>completed\<close>.
\<close>

definition spread_property :: "'a option \<Rightarrow> 'a property \<Rightarrow> 'a option" where
  "spread_property old p = (case p of Absent \<Rightarrow> old | Undefined \<Rightarrow> None | Value v \<Rightarrow> Some v)"

definition spread :: "ITask \<Rightarrow> TaskUpdate \<Rightarrow> ITask" where
  "spread task updates =
     task\<lparr>text_t := spread_property (text_t task) (u_text updates),
          image_filepath := spread_property (image_filepath task) (u_image_filepath updates),
          image_webview_path :=
            spread_property (image_webview_path task) (u_image_webview_path updates),
          image_base64 := spread_property (image_base64 task) (u_image_base64 updates),
          completed :=
            (case u_completed updates of
               Absent \<Rightarrow> completed task | Undefined \<Rightarrow> False | Value v \<Rightarrow> v)\<rparr>"

text \<open>The list \<^verbatim>\<open>fields\<close> (with \<^verbatim>\<open>values\<close>) that the native branch of
  \<^verbatim>\<open>updateTask\<close> builds from the properties that are \<^verbatim>\<open>!== undefined\<close>; it has no
  entry for \<^verbatim>\<open>image_base64\<close>.\<close>

definition update_fields :: "TaskUpdate \<Rightarrow> assignment list" where
  "update_fields updates =
     (case u_text updates of Value v \<Rightarrow> [SetText v] | _ \<Rightarrow> []) @
     (case u_image_filepath updates of Value v \<Rightarrow> [SetImageFilepath v] | _ \<Rightarrow> []) @
     (case u_image_webview_path updates of Value v \<Rightarrow> [SetImageWebviewPath v] | _ \<Rightarrow> []) @
     (case u_completed updates of
        Value v \<Rightarrow> [SetCompleted (if v then 1 else 0)] | _ \<Rightarrow> [])"

definition updateTask :: "real \<Rightarrow> TaskUpdate \<Rightarrow> DatabaseService \<Rightarrow> error + DatabaseService" where
  "updateTask i updates s =
     (if isWeb s then
        (let tasks = getStoredTasks s in
         case findIndex (\<lambda>task. id_t task = Some i) tasks of
           None \<Rightarrow> Inl NotFound
         | Some taskIndex \<Rightarrow>
             Inr (saveTasksToStorage
                    (tasks[taskIndex := spread (tasks ! taskIndex) updates]) s))
      else if \<not> db s then Inl NotInitialized
      else
        (let set_list = update_fields updates in
         if set_list = [] then Inr s
         else Inr (s\<lparr>tasks_db := sql_update set_list i (tasks_db s),
                      run_calls := Suc (run_calls s)\<rparr>)))"

definition toggleTaskCompletion :: "real \<Rightarrow> DatabaseService \<Rightarrow> error + DatabaseService" where
  "toggleTaskCompletion i s =
     (if isWeb s then
        (let tasks = getStoredTasks s in
         case findIndex (\<lambda>task. id_t task = Some i) tasks of
           None \<Rightarrow> Inl NotFound
         | Some taskIndex \<Rightarrow>
             Inr (saveTasksToStorage
                    (tasks[taskIndex :=
                       (tasks ! taskIndex)\<lparr>completed := \<not> completed (tasks ! taskIndex)\<rparr>]) s))
      else if \<not> db s then Inl NotInitialized
      else Inr (s\<lparr>tasks_db := sql_toggle i (tasks_db s), run_calls := Suc (run_calls s)\<rparr>))"

text \<open>\<^verbatim>\<open>closeDatabase\<close>; the argument says whether the driver's \<^verbatim>\<open>close\<close> completes.
  When it raises, the \<^verbatim>\<open>catch\<close> logs, and \<^verbatim>\<open>this.db\<close> stays as it was.\<close>

definition closeDatabase :: "bool \<Rightarrow> DatabaseService \<Rightarrow> DatabaseService" where
  "closeDatabase close_completes s =
     (if \<not> isWeb s \<and> db s then
        (if close_completes then s\<lparr>db := False\<rparr> else s)
      else s)"

text \<open>\<^verbatim>\<open>clearAllTasks\<close> has one body for both backends:
  \<^verbatim>\<open>localStorage.removeItem(this.storageKey)\<close>.\<close>

definition clearAllTasks :: "DatabaseService \<Rightarrow> DatabaseService" where
  "clearAllTasks s = s\<lparr>storage := None\<rparr>"

subsection \<open>Callers\<close>

text \<open>A caller that awaits one \<^verbatim>\<open>addTask\<close> after the other and stops at the first
  error; it collects the identifiers returned.\<close>

fun addTasks ::
  "(environment \<times> NewTask) list \<Rightarrow> DatabaseService \<Rightarrow> error + (real list \<times> DatabaseService)" where
  "addTasks [] s = Inr ([], s)"
| "addTasks ((env, task) # calls) s =
     (case addTask env task s of
        Inl e \<Rightarrow> Inl e
      | Inr (i, s') \<Rightarrow>
          (case addTasks calls s' of
             Inl e \<Rightarrow> Inl e
           | Inr (ids, s'') \<Rightarrow> Inr (i # ids, s'')))"

subsection \<open>Example stores and arguments\<close>

definition example_task :: "string \<Rightarrow> NewTask" where
  "example_task txt =
     \<lparr>new_text = txt, new_image_filepath = [], new_image_webview_path = None,
      new_image_base64 = None, new_completed = True\<rparr>"

definition example_env :: "int \<Rightarrow> environment" where
  "example_env t =
     \<lparr>date_now = t, math_random = 1 / 2, new_date = t,
      fetch_image = (\<lambda>path. ReaderErrors), current_timestamp = t\<rparr>"

definition empty_db :: database where
  "empty_db = \<lparr>rows = [], sqlite_sequence = 0\<rparr>"

definition web_store :: DatabaseService where
  "web_store = constructor True None empty_db"

definition native_store :: DatabaseService where
  "native_store = (constructor False None empty_db)\<lparr>db := True\<rparr>"

definition stored_task :: "real \<Rightarrow> string \<Rightarrow> ITask" where
  "stored_task i txt =
     \<lparr>id_t = Some i, text_t = Some txt, image_filepath = Some [],
      image_webview_path = Some [],
      image_base64 = Some [], completed = False, created_at = Some 1\<rparr>"

definition stored_row :: "int \<Rightarrow> string \<Rightarrow> row" where
  "stored_row i txt =
     \<lparr>col_id = i, col_text = txt, col_image_filepath = [], col_image_webview_path = [],
      col_image_base64 = [], col_completed = 0, col_created_at = 1\<rparr>"

definition web_one :: DatabaseService where
  "web_one = web_store\<lparr>storage := Some (Document [stored_task 1 ''a''])\<rparr>"

definition native_one :: DatabaseService where
  "native_one = native_store\<lparr>tasks_db := \<lparr>rows = [stored_row 1 ''a''], sqlite_sequence = 1\<rparr>\<rparr>"

definition no_update :: TaskUpdate where
  "no_update =
     \<lparr>u_text = Absent, u_image_filepath = Absent, u_image_webview_path = Absent,
      u_image_base64 = Absent, u_completed = Absent\<rparr>"

text \<open>
  A caller that issues any sequence of calls, one after the other, catches the errors
  and goes on; it collects the identifiers that the \<^verbatim>\<open>addTask\<close> calls return. A
  call that throws leaves the service as it was.
\<close>

datatype call =
  InitializeDatabase bool
| AddTask environment NewTask
| DeleteTask real
| UpdateTask real TaskUpdate
| ToggleTaskCompletion real
| CloseDatabase bool
| ClearAllTasks

fun run :: "call list \<Rightarrow> DatabaseService \<Rightarrow> real list \<times> DatabaseService" where
  "run [] s = ([], s)"
| "run (InitializeDatabase storage_defined # calls) s =
     (case initializeDatabase storage_defined s of
        Inl e \<Rightarrow> run calls s
      | Inr s' \<Rightarrow> run calls s')"
| "run (AddTask env task # calls) s =
     (case addTask env task s of
        Inl e \<Rightarrow> run calls s
      | Inr (i, s') \<Rightarrow> (case run calls s' of (ids, s'') \<Rightarrow> (i # ids, s'')))"
| "run (DeleteTask i # calls) s =
     (case deleteTask i s of Inl e \<Rightarrow> run calls s | Inr s' \<Rightarrow> run calls s')"
| "run (UpdateTask i updates # calls) s =
     (case updateTask i updates s of Inl e \<Rightarrow> run calls s | Inr s' \<Rightarrow> run calls s')"
| "run (ToggleTaskCompletion i # calls) s =
     (case toggleTaskCompletion i s of Inl e \<Rightarrow> run calls s | Inr s' \<Rightarrow> run calls s')"
| "run (CloseDatabase close_completes # calls) s = run calls (closeDatabase close_completes s)"
| "run (ClearAllTasks # calls) s = run calls (clearAllTasks s)"

text \<open>
  What \<^verbatim>\<open>Date.now()\<close> and \<^verbatim>\<open>Math.random()\<close> can return: a time at or after the
  epoch and within the range of \<^verbatim>\<open>Date\<close>, and a number that is at least 0 and below 1.
\<close>

definition valid_reading :: "environment \<Rightarrow> bool" where
  "valid_reading env =
     (0 \<le> date_now env \<and> date_now env < 2 ^ 53
      \<and> 0 \<le> math_random env \<and> math_random env < 1)"

text \<open>Two calls whose \<^verbatim>\<open>Date.now()\<close> readings are at least two milliseconds apart.\<close>

definition apart :: "environment \<Rightarrow> environment \<Rightarrow> bool" where
  "apart a b = (2 \<le> \<bar>date_now a - date_now b\<bar>)"

text \<open>The environments of the \<^verbatim>\<open>addTask\<close> calls of a sequence, in order.\<close>

fun add_envs :: "call list \<Rightarrow> environment list" where
  "add_envs [] = []"
| "add_envs (AddTask env task # calls) = env # add_envs calls"
| "add_envs (c # calls) = add_envs calls"

text \<open>Two \<^verbatim>\<open>addTask\<close> calls in one millisecond of November 2023 with different random
  numbers, and two calls in adjacent milliseconds.\<close>

definition same_millisecond :: "call list" where
  "same_millisecond =
     [AddTask ((example_env 1700000000000)\<lparr>math_random := 1 / 2\<rparr>) (example_task ''a''),
      AddTask ((example_env 1700000000000)\<lparr>math_random := 1 / 2 + 1 / 2 ^ 20\<rparr>)
        (example_task ''b'')]"

definition adjacent_milliseconds :: "call list" where
  "adjacent_milliseconds =
     [AddTask ((example_env 1700000000000)\<lparr>math_random := 1 - 1 / 2 ^ 20\<rparr>)
        (example_task ''a''),
      AddTask ((example_env 1700000000001)\<lparr>math_random := 0\<rparr>) (example_task ''b'')]"

definition three_calls :: "int \<Rightarrow> int \<Rightarrow> int \<Rightarrow> (environment \<times> NewTask) list" where
  "three_calls t1 t2 t3 =
     [(example_env t1, example_task ''a''), (example_env t2, example_task ''b''),
      (example_env t3, example_task ''c'')]"

text \<open>The scenario "add these tasks, then read all tasks".\<close>

definition scenario :: "(environment \<times> NewTask) list \<Rightarrow> DatabaseService \<Rightarrow> error + ITask list" where
  "scenario calls s =
     (case addTasks calls s of
        Inl e \<Rightarrow> Inl e
      | Inr (ids, s') \<Rightarrow> getAllTasks s')"

section \<open>Properties\<close>

subsection \<open>Rounding to a double\<close>

lemma binary_digits_numeral [simp]:
  "binary_digits 0 = 0"
  "binary_digits (numeral k) = Suc (binary_digits (numeral k div 2))"
  "binary_digits (Suc 0) = Suc 0"
  by (simp_all add: binary_digits.simps [of 0] binary_digits.simps [of "numeral k"]
      binary_digits.simps [of "Suc 0"])

lemma binary_digits_le: "n < 2 ^ k \<Longrightarrow> binary_digits n \<le> k"
proof (induction k arbitrary: n)
  case 0
  then show ?case by (simp add: binary_digits.simps [of n])
next
  case (Suc k)
  show ?case
  proof (cases "n = 0")
    case True
    then show ?thesis by simp
  next
    case False
    from Suc.prems have "n div 2 < 2 ^ k" by simp
    from Suc.IH [OF this] False show ?thesis
      by (simp add: binary_digits.simps [of n])
  qed
qed

lemma round_half_even_floor:
  "\<lfloor>q\<rfloor> \<le> round_half_even q \<and> round_half_even q \<le> \<lfloor>q\<rfloor> + 1"
  by (simp add: round_half_even_def Let_def)

lemma to_double_between_positive:
  fixes t :: int
  assumes "1 \<le> t" and "t < 2 ^ 53" and "0 \<le> r" and "r < 1"
  shows "real_of_int t \<le> to_double (real_of_int t + r)
       \<and> to_double (real_of_int t + r) \<le> real_of_int t + 1"
proof -
  let ?x = "real_of_int t + r"
  define e where "e = binary_digits (nat \<lfloor>\<bar>?x\<bar>\<rfloor>) - 1"
  define m :: int where "m = 2 ^ (52 - e)"
  define z where "z = round_half_even (?x * real_of_int m)"
  from assms have pos: "1 \<le> ?x" by simp
  then have ab: "\<bar>?x\<bar> = ?x" by simp
  from assms(3,4) have fl: "\<lfloor>?x\<rfloor> = t" by (simp add: floor_unique)
  from assms(1,2) have "nat t < 2 ^ 53"
    by (simp add: nat_less_iff)
  then have "binary_digits (nat t) \<le> 53" by (rule binary_digits_le)
  then have e: "e \<le> 52" by (simp add: e_def ab fl)
  have mpos: "0 < m" by (simp add: m_def)
  from e have "(2::real) ^ 52 = 2 ^ e * 2 ^ (52 - e)"
    by (metis le_add_diff_inverse power_add)
  moreover have "a = b * c \<Longrightarrow> b \<noteq> 0 \<Longrightarrow> c \<noteq> 0 \<Longrightarrow> b / a = 1 / c" for a b c :: real
    by simp
  ultimately have "(2::real) ^ e / 2 ^ 52 = 1 / 2 ^ (52 - e)"
    by (metis power_not_zero zero_neq_numeral)
  then have ulp: "(2::real) ^ e / 2 ^ 52 = 1 / real_of_int m"
    by (simp only: m_def of_int_power of_int_numeral)
  from pos have big: "\<not> \<bar>?x\<bar> < 1" and sg: "sgn ?x = 1" by simp_all
  have "to_double ?x =
          sgn ?x * (real_of_int (round_half_even (\<bar>?x\<bar> / (2 ^ e / 2 ^ 52))) * (2 ^ e / 2 ^ 52))"
    unfolding to_double_def e_def Let_def using big by (simp only: if_False)
  also have "\<dots> = 1 * (real_of_int (round_half_even (?x / (1 / real_of_int m))) * (1 / real_of_int m))"
    by (simp only: ulp ab sg)
  also have "\<dots> = real_of_int z / real_of_int m"
    by (simp add: z_def)
  finally have res: "to_double ?x = real_of_int z / real_of_int m" .
  have lowq: "real_of_int (t * m) \<le> ?x * real_of_int m"
    using assms(3) mpos by simp
  have highq: "?x * real_of_int m < real_of_int ((t + 1) * m)"
    using assms(4) mpos by simp
  from lowq have "t * m \<le> \<lfloor>?x * real_of_int m\<rfloor>" by (simp only: le_floor_iff)
  with round_half_even_floor [of "?x * real_of_int m"] have low: "t * m \<le> z"
    by (simp add: z_def)
  from highq have "\<lfloor>?x * real_of_int m\<rfloor> < (t + 1) * m" by (simp only: floor_less_iff)
  with round_half_even_floor [of "?x * real_of_int m"] have high: "z \<le> (t + 1) * m"
    by (simp add: z_def)
  from low have "real_of_int (t * m) \<le> real_of_int z" by (simp only: of_int_le_iff)
  then have l: "real_of_int t \<le> real_of_int z / real_of_int m"
    using mpos by (simp add: pos_le_divide_eq)
  from high have "real_of_int z \<le> real_of_int ((t + 1) * m)" by (simp only: of_int_le_iff)
  then have h: "real_of_int z / real_of_int m \<le> real_of_int t + 1"
    using mpos by (simp add: pos_divide_le_eq)
  from l h show ?thesis by (simp only: res)
qed

lemma to_double_between:
  fixes t :: int
  assumes "0 \<le> t" and "t < 2 ^ 53" and "0 \<le> r" and "r < 1"
  shows "real_of_int t \<le> to_double (real_of_int t + r)
       \<and> to_double (real_of_int t + r) \<le> real_of_int t + 1"
proof (cases "t = 0")
  case True
  with assms(3,4) show ?thesis by (simp add: to_double_def)
next
  case False
  with assms(1) have "1 \<le> t" by simp
  from this assms(2,3,4) show ?thesis by (rule to_double_between_positive)
qed

text \<open>The identifier of a call lies within one millisecond after the time it read, so
  two calls that read times at least two milliseconds apart get different identifiers.\<close>

lemma generateId_between:
  assumes "valid_reading env"
  shows "real_of_int (date_now env) \<le> generateId env
       \<and> generateId env \<le> real_of_int (date_now env) + 1"
proof -
  from assms have "0 \<le> date_now env" "date_now env < 2 ^ 53"
    "0 \<le> math_random env" "math_random env < 1"
    by (simp_all add: valid_reading_def)
  then show ?thesis unfolding generateId_def by (rule to_double_between)
qed

lemma generateId_apart:
  assumes "valid_reading a" and "valid_reading b" and "apart a b"
  shows "generateId a \<noteq> generateId b"
proof -
  from assms(3) have "date_now a + 2 \<le> date_now b \<or> date_now b + 2 \<le> date_now a"
    unfolding apart_def by linarith
  then consider "date_now a + 2 \<le> date_now b" | "date_now b + 2 \<le> date_now a"
    by blast
  then show ?thesis
  proof cases
    case 1
    then have "real_of_int (date_now a) + 1 < real_of_int (date_now b)" by linarith
    with generateId_between [OF assms(1)] generateId_between [OF assms(2)]
    show ?thesis by linarith
  next
    case 2
    then have "real_of_int (date_now b) + 1 < real_of_int (date_now a)" by linarith
    with generateId_between [OF assms(1)] generateId_between [OF assms(2)]
    show ?thesis by linarith
  qed
qed

lemma generateId_example_env:
  "generateId (example_env 1) = 3 / 2"
  "generateId (example_env 2) = 5 / 2"
  "generateId (example_env 3) = 7 / 2"
  by (simp_all add: generateId_def example_env_def to_double_def round_half_even_def Let_def)

subsection \<open>Lists, sorting and the helpers\<close>

lemma findIndex_Some: "findIndex P xs = Some k \<Longrightarrow> k < length xs \<and> P (xs ! k)"
  by (induction xs arbitrary: k) (auto split: if_splits)

lemma findIndex_None: "findIndex P xs = None \<longleftrightarrow> (\<forall>x\<in>set xs. \<not> P x)"
  by (induction xs) auto

lemma findIndex_first: "findIndex P xs = Some k \<Longrightarrow> j < k \<Longrightarrow> \<not> P (xs ! j)"
proof (induction xs arbitrary: k j)
  case Nil
  then show ?case by simp
next
  case (Cons x xs)
  then show ?case by (cases j) (auto split: if_splits)
qed

lemma findIndex_same_keys:
  "map f ys = map f xs \<Longrightarrow> findIndex (\<lambda>x. P (f x)) ys = findIndex (\<lambda>x. P (f x)) xs"
proof (induction xs arbitrary: ys)
  case Nil
  then show ?case by simp
next
  case (Cons x xs)
  then obtain y ys' where "ys = y # ys'" "f y = f x" "map f ys' = map f xs"
    by (cases ys) auto
  with Cons.IH [of ys'] show ?case by simp
qed

lemma findIndex_map: "findIndex P (map f xs) = findIndex (\<lambda>x. P (f x)) xs"
  by (induction xs) simp_all

lemma insort_key_map_same:
  assumes "\<And>x. g (f x) = g x"
  shows "insort_key g (f x) (map f ys) = map f (insort_key g x ys)"
  by (induction ys) (simp_all add: assms)

lemma sort_key_map_same:
  assumes "\<And>x. g (f x) = g x"
  shows "sort_key g (map f xs) = map f (sort_key g xs)"
  by (induction xs) (simp_all add: insort_key_map_same [of g f, OF assms])

lemma insort_key_last:
  "\<forall>y\<in>set ys. g y < g x \<Longrightarrow> insort_key g x ys = ys @ [x]"
  for g :: "'a \<Rightarrow> int"
  by (induction ys) auto

lemma sort_key_increasing:
  "sorted_wrt (<) (map f xs) \<Longrightarrow> sort_key (\<lambda>x. - f x) xs = rev xs"
  for f :: "'a \<Rightarrow> int"
proof (induction xs)
  case Nil
  then show ?case by simp
next
  case (Cons x xs)
  then have "\<forall>y\<in>set (rev xs). - f y < - f x" by auto
  then have "insort_key (\<lambda>x. - f x) x (rev xs) = rev xs @ [x]"
    by (rule insort_key_last)
  with Cons show ?case by simp
qed


subsection \<open>The methods, branch by branch\<close>

lemma getStoredTasks_save: "getStoredTasks (saveTasksToStorage ts s) = ts"
  by (simp add: getStoredTasks_def saveTasksToStorage_def)

lemma isWeb_save: "isWeb (saveTasksToStorage ts s) = isWeb s"
  by (simp add: saveTasksToStorage_def)

lemma getAllTasks_web:
  "isWeb s \<Longrightarrow> getAllTasks s =
     Inr (map (\<lambda>task. task\<lparr>image_webview_path :=
                              js_or (image_base64 task) (image_webview_path task)\<rparr>)
            (getStoredTasks s))"
  by (simp add: getAllTasks_def)

lemma getAllTasks_native:
  "\<not> isWeb s \<Longrightarrow> db s \<Longrightarrow> getAllTasks s = Inr (map row_task (sql_select (tasks_db s)))"
  by (simp add: getAllTasks_def)

lemma getAllTasks_Inr_native: "\<not> isWeb s \<Longrightarrow> getAllTasks s = Inr ts \<Longrightarrow> db s"
  by (simp add: getAllTasks_def split: if_splits)

subsection \<open>Deleting\<close>

lemma sql_select_delete:
  "sql_select (sql_delete i d) = filter (\<lambda>r. real_of_int (col_id r) \<noteq> i) (sql_select d)"
  by (simp add: sql_select_def sql_delete_def filter_sort)

lemma sql_delete_twice: "sql_delete i (sql_delete i d) = sql_delete i d"
  by (simp add: sql_delete_def)

lemma filter_row_task:
  "filter (\<lambda>task. id_t task \<noteq> Some i) (map row_task rs) =
     map row_task (filter (\<lambda>r. real_of_int (col_id r) \<noteq> i) rs)"
  by (simp add: filter_map comp_def row_task_def)

text \<open>
  C8. On either backend, whenever the store can be read, \<^verbatim>\<open>deleteTask\<close> succeeds;
  the collection read afterwards is the one read before without the records that carry
  the identifier, so it never includes the identifier and is the same collection when
  the identifier was absent; a second \<^verbatim>\<open>deleteTask\<close> with the same identifier
  succeeds too and changes nothing more.
\<close>

theorem deleteTask_idempotent:
  assumes "getAllTasks s = Inr ts"
  shows "\<exists>s' s'' ts'. deleteTask i s = Inr s'
           \<and> getAllTasks s' = Inr ts'
           \<and> ts' = filter (\<lambda>task. id_t task \<noteq> Some i) ts
           \<and> Some i \<notin> id_t ` set ts'
           \<and> (Some i \<notin> id_t ` set ts \<longrightarrow> ts' = ts)
           \<and> deleteTask i s' = Inr s''
           \<and> getAllTasks s'' = Inr ts'"
proof -
  let ?keep = "filter (\<lambda>task. id_t task \<noteq> Some i) ts"
  have absent: "Some i \<notin> id_t ` set ?keep" by auto
  have noop: "Some i \<notin> id_t ` set ts \<longrightarrow> ?keep = ts"
    by (auto simp: filter_id_conv intro: rev_image_eqI)
  have run: "\<exists>s' s''. deleteTask i s = Inr s' \<and> getAllTasks s' = Inr ?keep
               \<and> deleteTask i s' = Inr s'' \<and> getAllTasks s'' = Inr ?keep"
  proof (cases "isWeb s")
    case True
    with assms have ts: "ts = map (\<lambda>task. task\<lparr>image_webview_path :=
                              js_or (image_base64 task) (image_webview_path task)\<rparr>)
            (getStoredTasks s)"
      by (simp add: getAllTasks_web)
    from True show ?thesis
      by (simp add: deleteTask_def getAllTasks_web isWeb_save getStoredTasks_save ts
          filter_map comp_def)
  next
    case False
    from False assms have o: "db s" by (rule getAllTasks_Inr_native)
    from False o assms have ts: "ts = map row_task (sql_select (tasks_db s))"
      by (simp add: getAllTasks_native)
    from False o show ?thesis
      by (simp add: deleteTask_def getAllTasks_def sql_select_delete sql_delete_twice
          filter_row_task ts)
  qed
  with absent noop show ?thesis by blast
qed

theorem deleteTask_idempotent_witness:
  "getAllTasks web_one = Inr [stored_task 1 ''a'']
   \<and> (\<exists>s' s''. deleteTask 1 web_one = Inr s' \<and> getAllTasks s' = Inr []
          \<and> deleteTask 1 s' = Inr s'' \<and> getAllTasks s'' = Inr [])
   \<and> getAllTasks native_one = Inr [row_task (stored_row 1 ''a'')]
   \<and> (\<exists>s' s''. deleteTask 1 native_one = Inr s' \<and> getAllTasks s' = Inr []
          \<and> deleteTask 1 s' = Inr s'' \<and> getAllTasks s'' = Inr [])
   \<and> Some 2 \<notin> id_t ` set [stored_task 1 ''a'']
   \<and> (\<exists>s'. deleteTask 2 web_one = Inr s' \<and> getAllTasks s' = Inr [stored_task 1 ''a''])"
proof -
  have w: "getAllTasks web_one = Inr [stored_task 1 ''a'']"
    by (simp add: getAllTasks_def getStoredTasks_def web_one_def web_store_def
        constructor_def stored_task_def js_or_def truthy_def)
  have n: "getAllTasks native_one = Inr [row_task (stored_row 1 ''a'')]"
    by (simp add: getAllTasks_def native_one_def native_store_def constructor_def
        sql_select_def)
  have i: "id_t (stored_task 1 ''a'') = Some 1"
    by (simp add: stored_task_def)
  have j: "id_t (row_task (stored_row 1 ''a'')) = Some 1"
    by (simp add: row_task_def stored_row_def)
  have a: "Some 2 \<notin> id_t ` set [stored_task 1 ''a'']"
    by (simp add: stored_task_def)
  from deleteTask_idempotent [OF w, of 2] a
  have k: "\<exists>s'. deleteTask 2 web_one = Inr s' \<and> getAllTasks s' = Inr [stored_task 1 ''a'']"
    by auto
  from deleteTask_idempotent [OF w, of 1] i
  have p: "\<exists>s' s''. deleteTask 1 web_one = Inr s' \<and> getAllTasks s' = Inr []
          \<and> deleteTask 1 s' = Inr s'' \<and> getAllTasks s'' = Inr []"
    by auto
  from deleteTask_idempotent [OF n, of 1] j
  have q: "\<exists>s' s''. deleteTask 1 native_one = Inr s' \<and> getAllTasks s' = Inr []
          \<and> deleteTask 1 s' = Inr s'' \<and> getAllTasks s'' = Inr []"
    by auto
  from w n a k p q show ?thesis by blast
qed

subsection \<open>Toggling\<close>

lemma sql_select_toggle:
  "sql_select (sql_toggle i d) =
     map (\<lambda>r. if real_of_int (col_id r) = i
              then r\<lparr>col_completed := sql_not (col_completed r)\<rparr> else r)
       (sql_select d)"
  by (simp add: sql_select_def sql_toggle_def sort_key_map_same)

lemma row_task_toggle_twice:
  "row_task (r\<lparr>col_completed := sql_not (sql_not (col_completed r))\<rparr>) = row_task r"
  by (simp add: row_task_def sql_not_def)

lemma id_t_row_task: "id_t (row_task r) = Some i \<longleftrightarrow> real_of_int (col_id r) = i"
  by (simp add: row_task_def)

lemma completed_row_task_toggle:
  "completed (row_task (r\<lparr>col_completed := sql_not (col_completed r)\<rparr>)) =
     (\<not> completed (row_task r))"
  by (simp add: row_task_def sql_not_def)

text \<open>
  C9. When the collection read from the store has a record with the identifier (the
  first one at position \<open>k\<close>), two calls of \<^verbatim>\<open>toggleTaskCompletion\<close> in succession
  both succeed; after the first the record at \<open>k\<close> has the opposite \<^verbatim>\<open>completed\<close>,
  and after the second the collection read is the original one, so \<^verbatim>\<open>completed\<close>
  is back at its original value.
\<close>

theorem toggleTaskCompletion_involution:
  assumes "getAllTasks s = Inr ts"
    and "findIndex (\<lambda>task. id_t task = Some i) ts = Some k"
  shows "\<exists>s1 ts1 s2. toggleTaskCompletion i s = Inr s1
           \<and> getAllTasks s1 = Inr ts1
           \<and> completed (ts1 ! k) = (\<not> completed (ts ! k))
           \<and> toggleTaskCompletion i s1 = Inr s2
           \<and> getAllTasks s2 = Inr ts"
proof (cases "isWeb s")
  case True
  let ?h = "\<lambda>task. task\<lparr>image_webview_path :=
                          js_or (image_base64 task) (image_webview_path task)\<rparr>"
  let ?P = "\<lambda>task. id_t task = Some i"
  let ?tasks = "getStoredTasks s"
  let ?flip = "\<lambda>task. task\<lparr>completed := \<not> completed task\<rparr>"
  let ?tasks1 = "?tasks[k := ?flip (?tasks ! k)]"
  let ?s1 = "saveTasksToStorage ?tasks1 s"
  from True assms(1) have ts: "ts = map ?h ?tasks"
    by (simp add: getAllTasks_web)
  from assms(2) have k: "findIndex ?P ?tasks = Some k"
    by (simp add: ts findIndex_map)
  then have len: "k < length ?tasks"
    by (simp add: findIndex_Some)
  have "map id_t ?tasks1 = map id_t ?tasks"
    by (simp add: map_update list_update_same_conv len)
  then have "findIndex (\<lambda>task. (\<lambda>v. v = Some i) (id_t task)) ?tasks1 =
             findIndex (\<lambda>task. (\<lambda>v. v = Some i) (id_t task)) ?tasks"
    by (rule findIndex_same_keys)
  with k have k1: "findIndex ?P ?tasks1 = Some k" by simp
  have restore: "?tasks1[k := ?flip (?tasks1 ! k)] = ?tasks"
    using len by (simp add: list_update_same_conv)
  have one: "toggleTaskCompletion i s = Inr ?s1"
    using True k by (simp add: toggleTaskCompletion_def Let_def)
  have two: "toggleTaskCompletion i ?s1 = Inr (saveTasksToStorage ?tasks ?s1)"
    using True k1 restore
    by (simp add: toggleTaskCompletion_def Let_def isWeb_save getStoredTasks_save)
  have r1: "getAllTasks ?s1 = Inr (map ?h ?tasks1)"
    using True by (simp add: getAllTasks_web isWeb_save getStoredTasks_save)
  have r2: "getAllTasks (saveTasksToStorage ?tasks ?s1) = Inr ts"
    using True by (simp add: getAllTasks_web isWeb_save getStoredTasks_save ts)
  have c: "completed (map ?h ?tasks1 ! k) = (\<not> completed (ts ! k))"
    using len by (simp add: ts)
  from one two r1 r2 c show ?thesis by blast
next
  case False
  let ?tog = "\<lambda>r. if real_of_int (col_id r) = i
                  then r\<lparr>col_completed := sql_not (col_completed r)\<rparr> else r"
  let ?sel = "sql_select (tasks_db s)"
  let ?s1 = "s\<lparr>tasks_db := sql_toggle i (tasks_db s), run_calls := Suc (run_calls s)\<rparr>"
  let ?s2 = "?s1\<lparr>tasks_db := sql_toggle i (tasks_db ?s1), run_calls := Suc (run_calls ?s1)\<rparr>"
  from False assms(1) have o: "db s" by (rule getAllTasks_Inr_native)
  from False o assms(1) have ts: "ts = map row_task ?sel"
    by (simp add: getAllTasks_native)
  from assms(2) have "k < length ts \<and> id_t (ts ! k) = Some i"
    by (rule findIndex_Some)
  then have len: "k < length ?sel" and idk: "real_of_int (col_id (?sel ! k)) = i"
    by (auto simp: ts id_t_row_task)
  have one: "toggleTaskCompletion i s = Inr ?s1"
    using False o by (simp add: toggleTaskCompletion_def Let_def)
  have two: "toggleTaskCompletion i ?s1 = Inr ?s2"
    using False o by (simp add: toggleTaskCompletion_def Let_def)
  have r1: "getAllTasks ?s1 = Inr (map row_task (map ?tog ?sel))"
    using False o by (simp add: getAllTasks_def sql_select_toggle)
  have tt: "row_task (?tog (?tog r)) = row_task r" for r
    by (simp add: row_task_toggle_twice)
  have r2: "getAllTasks ?s2 = Inr ts"
    using False o by (simp add: getAllTasks_def sql_select_toggle ts tt comp_def)
  have c: "completed (map row_task (map ?tog ?sel) ! k) = (\<not> completed (ts ! k))"
    using len idk by (simp add: ts completed_row_task_toggle)
  from one two r1 r2 c show ?thesis by blast
qed

theorem toggleTaskCompletion_involution_witness:
  "getAllTasks web_one = Inr [stored_task 1 ''a'']
   \<and> findIndex (\<lambda>task. id_t task = Some 1) [stored_task 1 ''a''] = Some 0
   \<and> (\<exists>s1 ts1 s2. toggleTaskCompletion 1 web_one = Inr s1 \<and> getAllTasks s1 = Inr ts1
          \<and> completed (ts1 ! 0) \<and> toggleTaskCompletion 1 s1 = Inr s2
          \<and> getAllTasks s2 = Inr [stored_task 1 ''a''])
   \<and> getAllTasks native_one = Inr [row_task (stored_row 1 ''a'')]
   \<and> findIndex (\<lambda>task. id_t task = Some 1) [row_task (stored_row 1 ''a'')] = Some 0
   \<and> (\<exists>s1 ts1 s2. toggleTaskCompletion 1 native_one = Inr s1 \<and> getAllTasks s1 = Inr ts1
          \<and> completed (ts1 ! 0) \<and> toggleTaskCompletion 1 s1 = Inr s2
          \<and> getAllTasks s2 = Inr [row_task (stored_row 1 ''a'')])"
proof -
  have w: "getAllTasks web_one = Inr [stored_task 1 ''a'']"
    by (simp add: getAllTasks_def getStoredTasks_def web_one_def web_store_def
        constructor_def stored_task_def js_or_def truthy_def)
  have n: "getAllTasks native_one = Inr [row_task (stored_row 1 ''a'')]"
    by (simp add: getAllTasks_def native_one_def native_store_def constructor_def
        sql_select_def)
  have i: "findIndex (\<lambda>task. id_t task = Some 1) [stored_task 1 ''a''] = Some 0"
    by (simp add: stored_task_def)
  have j: "findIndex (\<lambda>task. id_t task = Some 1) [row_task (stored_row 1 ''a'')] = Some 0"
    by (simp add: row_task_def stored_row_def)
  have c: "\<not> completed (stored_task 1 ''a'')" "\<not> completed (row_task (stored_row 1 ''a''))"
    by (simp_all add: stored_task_def row_task_def stored_row_def)
  from toggleTaskCompletion_involution [OF w i] c(1)
  have a: "\<exists>s1 ts1 s2. toggleTaskCompletion 1 web_one = Inr s1 \<and> getAllTasks s1 = Inr ts1
          \<and> completed (ts1 ! 0) \<and> toggleTaskCompletion 1 s1 = Inr s2
          \<and> getAllTasks s2 = Inr [stored_task 1 ''a'']"
    by simp
  from toggleTaskCompletion_involution [OF n j] c(2)
  have b: "\<exists>s1 ts1 s2. toggleTaskCompletion 1 native_one = Inr s1 \<and> getAllTasks s1 = Inr ts1
          \<and> completed (ts1 ! 0) \<and> toggleTaskCompletion 1 s1 = Inr s2
          \<and> getAllTasks s2 = Inr [row_task (stored_row 1 ''a'')]"
    by simp
  from w n i j a b show ?thesis by blast
qed

subsection \<open>Adding\<close>

lemma or_empty_simps: "or_empty None = []" "or_empty (Some v) = v"
  by (simp_all add: or_empty_def js_or_def truthy_def)

lemma addTask_web:
  "isWeb s \<Longrightarrow> addTask env task s =
     (case (if truthy (new_image_webview_path task)
            then convertImageToBase64 (fetch_image env)
                   (or_empty (new_image_webview_path task))
            else Inr []) of
        Inl e \<Rightarrow> Inl e
      | Inr b64 \<Rightarrow>
          Inr (generateId env,
               saveTasksToStorage
                 ((task_properties task)
                    \<lparr>id_t := Some (generateId env), created_at := Some (new_date env),
                     completed := False, image_base64 := Some b64\<rparr> # getStoredTasks s) s))"
  by (simp add: addTask_def Let_def split: sum.splits)

lemma addTask_native:
  "\<not> isWeb s \<Longrightarrow> db s \<Longrightarrow> addTask env task s =
     Inr (real_of_int (next_rowid (tasks_db s)),
          s\<lparr>tasks_db :=
               (tasks_db s)\<lparr>rows := rows (tasks_db s) @
                  [\<lparr>col_id = next_rowid (tasks_db s), col_text = new_text task,
                    col_image_filepath = new_image_filepath task,
                    col_image_webview_path = or_empty (new_image_webview_path task),
                    col_image_base64 = or_empty (new_image_base64 task),
                    col_completed = 0, col_created_at = current_timestamp env\<rparr>],
                 sqlite_sequence := next_rowid (tasks_db s)\<rparr>,
             run_calls := Suc (run_calls s)\<rparr>)"
  by (simp add: addTask_def sql_insert_def Let_def)

lemma addTask_native_closed: "\<not> isWeb s \<Longrightarrow> \<not> db s \<Longrightarrow> addTask env task s = Inl NotInitialized"
  by (simp add: addTask_def)

lemma mset_sql_select: "mset (sql_select d) = mset (rows d)"
  by (simp add: sql_select_def)

text \<open>
  C10. Whatever the task passed to \<^verbatim>\<open>addTask\<close> holds in \<^verbatim>\<open>completed\<close>, a call that
  succeeds adds exactly one record to the collection read from the store, on either
  backend; that record carries the identifier returned and the text passed, and its
  \<^verbatim>\<open>completed\<close> is false.
\<close>

theorem addTask_completed_false:
  assumes "addTask env task s = Inr (i, s')"
  shows "\<exists>ts t ts'. getAllTasks s = Inr ts \<and> getAllTasks s' = Inr ts'
           \<and> mset ts' = add_mset t (mset ts)
           \<and> id_t t = Some i \<and> text_t t = Some (new_text task) \<and> \<not> completed t"
proof (cases "isWeb s")
  case True
  let ?h = "\<lambda>task. task\<lparr>image_webview_path :=
                          js_or (image_base64 task) (image_webview_path task)\<rparr>"
  from True assms obtain b64 where
    i: "i = generateId env" and
    s': "s' = saveTasksToStorage
                 ((task_properties task)
                    \<lparr>id_t := Some (generateId env), created_at := Some (new_date env),
                     completed := False, image_base64 := Some b64\<rparr> # getStoredTasks s) s"
    by (auto simp: addTask_web split: sum.splits)
  let ?new = "(task_properties task)
                \<lparr>id_t := Some (generateId env), created_at := Some (new_date env),
                 completed := False, image_base64 := Some b64\<rparr>"
  have r: "getAllTasks s = Inr (map ?h (getStoredTasks s))"
    using True by (rule getAllTasks_web)
  have r': "getAllTasks s' = Inr (?h ?new # map ?h (getStoredTasks s))"
    using True by (simp add: getAllTasks_web s' isWeb_save getStoredTasks_save)
  have "mset (?h ?new # map ?h (getStoredTasks s)) = add_mset (?h ?new) (mset (map ?h (getStoredTasks s)))"
    by simp
  moreover have "id_t (?h ?new) = Some i \<and> text_t (?h ?new) = Some (new_text task) \<and> \<not> completed (?h ?new)"
    by (simp add: i task_properties_def)
  ultimately show ?thesis using r r' by blast
next
  case False
  with assms have o: "db s"
    by (auto simp: addTask_def split: if_splits)
  let ?r = "\<lparr>col_id = next_rowid (tasks_db s), col_text = new_text task,
                    col_image_filepath = new_image_filepath task,
                    col_image_webview_path = or_empty (new_image_webview_path task),
                    col_image_base64 = or_empty (new_image_base64 task),
                    col_completed = 0, col_created_at = current_timestamp env\<rparr>"
  from False o assms have i: "i = real_of_int (next_rowid (tasks_db s))"
    and s': "s' = s\<lparr>tasks_db := (tasks_db s)\<lparr>rows := rows (tasks_db s) @ [?r],
                 sqlite_sequence := next_rowid (tasks_db s)\<rparr>,
             run_calls := Suc (run_calls s)\<rparr>"
    by (simp_all add: addTask_native)
  have r: "getAllTasks s = Inr (map row_task (sql_select (tasks_db s)))"
    using False o by (rule getAllTasks_native)
  have r': "getAllTasks s' = Inr (map row_task (sql_select (tasks_db s')))"
    using False o by (simp add: getAllTasks_native s')
  have "mset (map row_task (sql_select (tasks_db s'))) =
        add_mset (row_task ?r) (mset (map row_task (sql_select (tasks_db s))))"
    by (simp add: mset_sql_select s')
  moreover have "id_t (row_task ?r) = Some i \<and> text_t (row_task ?r) = Some (new_text task)
                 \<and> \<not> completed (row_task ?r)"
    by (simp add: row_task_def i)
  ultimately show ?thesis using r r' by blast
qed

theorem addTask_completed_false_witness:
  "new_completed (example_task ''a'')
   \<and> addTask (example_env 1) (example_task ''a'') web_store =
       Inr (3 / 2, snd (projr (addTask (example_env 1) (example_task ''a'') web_store)))
   \<and> (\<exists>t. getAllTasks (snd (projr (addTask (example_env 1) (example_task ''a'') web_store))) = Inr [t]
          \<and> id_t t = Some (3 / 2) \<and> text_t t = Some ''a'' \<and> \<not> completed t)
   \<and> addTask (example_env 1) (example_task ''a'') native_store =
       Inr (1, snd (projr (addTask (example_env 1) (example_task ''a'') native_store)))
   \<and> (\<exists>t. getAllTasks (snd (projr (addTask (example_env 1) (example_task ''a'') native_store))) = Inr [t]
          \<and> id_t t = Some 1 \<and> text_t t = Some ''a'' \<and> \<not> completed t)"
proof -
  have c: "new_completed (example_task ''a'')" "new_text (example_task ''a'') = ''a''"
    by (simp_all add: example_task_def)
  have w: "addTask (example_env 1) (example_task ''a'') web_store =
       Inr (3 / 2, snd (projr (addTask (example_env 1) (example_task ''a'') web_store)))"
    by (simp add: addTask_def web_store_def constructor_def example_task_def truthy_def
        generateId_example_env Let_def)
  have n: "addTask (example_env 1) (example_task ''a'') native_store =
       Inr (1, snd (projr (addTask (example_env 1) (example_task ''a'') native_store)))"
    by (simp add: addTask_def native_store_def constructor_def sql_insert_def next_rowid_def
        empty_db_def Let_def)
  have w0: "getAllTasks web_store = Inr []"
    by (simp add: getAllTasks_def getStoredTasks_def web_store_def constructor_def)
  have n0: "getAllTasks native_store = Inr []"
    by (simp add: getAllTasks_def native_store_def constructor_def sql_select_def empty_db_def)
  from addTask_completed_false [OF w] w0 c(2)
  have a: "\<exists>t. getAllTasks (snd (projr (addTask (example_env 1) (example_task ''a'') web_store))) = Inr [t]
          \<and> id_t t = Some (3 / 2) \<and> text_t t = Some ''a'' \<and> \<not> completed t"
    by auto
  from addTask_completed_false [OF n] n0 c(2)
  have b: "\<exists>t. getAllTasks (snd (projr (addTask (example_env 1) (example_task ''a'') native_store))) = Inr [t]
          \<and> id_t t = Some 1 \<and> text_t t = Some ''a'' \<and> \<not> completed t"
    by auto
  from c(1) w n a b show ?thesis by blast
qed

subsection \<open>The example stores are states of the service\<close>

lemma example_stores_initialized:
  "initializeDatabase True (constructor True None empty_db) = Inr web_store"
  "initializeDatabase True (constructor False None empty_db) = Inr native_store"
  by (simp_all add: initializeDatabase_def constructor_def web_store_def native_store_def)

lemma example_stores_one_task:
  "addTask ((example_env 1)\<lparr>math_random := 0\<rparr>)
     ((example_task ''a'')\<lparr>new_image_webview_path := Some []\<rparr>) web_store =
     Inr (1, web_one\<lparr>setItem_calls := 1\<rparr>)"
  "addTask (example_env 1) (example_task ''a'') native_store =
     Inr (1, native_one\<lparr>run_calls := 1\<rparr>)"
  by (simp_all add: addTask_def web_store_def web_one_def native_store_def native_one_def
      constructor_def example_env_def example_task_def stored_task_def stored_row_def
      truthy_def generateId_def to_double_def round_half_even_def task_properties_def
      getStoredTasks_def saveTasksToStorage_def sql_insert_def
      next_rowid_def empty_db_def or_empty_def js_or_def Let_def)

subsection \<open>Identifiers that are absent\<close>

lemma updateTask_web_absent:
  "isWeb s \<Longrightarrow> Some i \<notin> id_t ` set (getStoredTasks s) \<Longrightarrow> updateTask i updates s = Inl NotFound"
proof -
  assume w: "isWeb s" and a: "Some i \<notin> id_t ` set (getStoredTasks s)"
  from a have "findIndex (\<lambda>task. id_t task = Some i) (getStoredTasks s) = None"
    by (auto simp: findIndex_None intro: rev_image_eqI)
  with w show ?thesis by (simp add: updateTask_def Let_def)
qed

lemma toggleTaskCompletion_web_absent:
  "isWeb s \<Longrightarrow> Some i \<notin> id_t ` set (getStoredTasks s) \<Longrightarrow>
     toggleTaskCompletion i s = Inl NotFound"
proof -
  assume w: "isWeb s" and a: "Some i \<notin> id_t ` set (getStoredTasks s)"
  from a have "findIndex (\<lambda>task. id_t task = Some i) (getStoredTasks s) = None"
    by (auto simp: findIndex_None intro: rev_image_eqI)
  with w show ?thesis by (simp add: toggleTaskCompletion_def Let_def)
qed

lemma updateTask_native_never_NotFound:
  "\<not> isWeb s \<Longrightarrow> updateTask i updates s \<noteq> Inl NotFound"
  by (simp add: updateTask_def Let_def)

lemma toggleTaskCompletion_native_never_NotFound:
  "\<not> isWeb s \<Longrightarrow> toggleTaskCompletion i s \<noteq> Inl NotFound"
  by (simp add: toggleTaskCompletion_def)

text \<open>
  C1. The browser branch of \<^verbatim>\<open>updateTask\<close> and of \<^verbatim>\<open>toggleTaskCompletion\<close> fails
  with \<open>NotFound\<close> for an absent identifier (the two lemmas above). The native branch
  does not: on an open, empty table, \<^verbatim>\<open>updateTask(999, {text: "x"})\<close> and
  \<^verbatim>\<open>toggleTaskCompletion(999)\<close> run their \<^verbatim>\<open>UPDATE\<close>, which matches no row, and
  return without an error.
\<close>

theorem native_absent_identifier_succeeds:
  "getAllTasks native_store = Inr []
   \<and> updateTask 999 (no_update\<lparr>u_text := Value ''x''\<rparr>) native_store =
       Inr (native_store\<lparr>run_calls := 1\<rparr>)
   \<and> toggleTaskCompletion 999 native_store = Inr (native_store\<lparr>run_calls := 1\<rparr>)"
  by (simp add: getAllTasks_def updateTask_def toggleTaskCompletion_def native_store_def
      constructor_def empty_db_def sql_select_def sql_update_def sql_toggle_def
      update_fields_def no_update_def)

subsection \<open>Images that cannot be read\<close>

lemma convertImageToBase64_caught:
  "take 5 imagePath \<noteq> ''data:'' \<Longrightarrow>
   fetch imagePath = FetchRejects \<or> fetch imagePath = BlobRejects \<Longrightarrow>
     convertImageToBase64 fetch imagePath = Inr []"
  by (auto simp: convertImageToBase64_def)

lemma addTask_web_image_caught:
  assumes "isWeb s"
    and "take 5 (or_empty (new_image_webview_path task)) \<noteq> ''data:''"
    and "fetch_image env (or_empty (new_image_webview_path task)) = FetchRejects
         \<or> fetch_image env (or_empty (new_image_webview_path task)) = BlobRejects"
  shows "addTask env task s =
     Inr (generateId env,
          saveTasksToStorage
            ((task_properties task)
               \<lparr>id_t := Some (generateId env), created_at := Some (new_date env),
                completed := False, image_base64 := Some []\<rparr> # getStoredTasks s) s)"
  using assms by (simp add: addTask_web convertImageToBase64_caught)

lemma addTask_web_reader_error:
  assumes "isWeb s" and "truthy (new_image_webview_path task)"
    and "take 5 (or_empty (new_image_webview_path task)) \<noteq> ''data:''"
    and "fetch_image env (or_empty (new_image_webview_path task)) = ReaderErrors"
  shows "addTask env task s = Inl ReaderFailed"
proof -
  from assms(2) have "or_empty (new_image_webview_path task) \<noteq> []"
    by (auto simp: truthy_def or_empty_def js_or_def split: option.splits)
  with assms show ?thesis
    by (simp add: addTask_web convertImageToBase64_def)
qed

text \<open>
  C2. When the image path is fetched and \<^verbatim>\<open>fetch\<close> or \<^verbatim>\<open>blob\<close> rejects,
  \<^verbatim>\<open>addTask\<close> on the browser backend stores the task with an empty
  \<^verbatim>\<open>image_base64\<close> (lemma \<open>addTask_web_image_caught\<close>). When the
  \<^verbatim>\<open>FileReader\<close> reports an error, the rejection is not caught anywhere (lemma
  \<open>addTask_web_reader_error\<close>): \<^verbatim>\<open>addTask\<close> fails and nothing is stored, as for
  the task below, whose image path is \<^verbatim>\<open>blob:photo\<close>.
\<close>

theorem addTask_reader_error_fails:
  "addTask (example_env 1) ((example_task ''a'')\<lparr>new_image_webview_path := Some ''blob:photo''\<rparr>)
     web_store = Inl ReaderFailed"
  by (simp add: addTask_def web_store_def constructor_def example_task_def example_env_def
      truthy_def or_empty_def js_or_def convertImageToBase64_def Let_def)

subsection \<open>Clearing\<close>

lemma clearAllTasks_web: "isWeb s \<Longrightarrow> getAllTasks (clearAllTasks s) = Inr []"
  by (simp add: getAllTasks_def clearAllTasks_def getStoredTasks_def)

lemma clearAllTasks_native: "\<not> isWeb s \<Longrightarrow> getAllTasks (clearAllTasks s) = getAllTasks s"
  by (simp add: getAllTasks_def clearAllTasks_def)

text \<open>
  C4. On the browser backend \<^verbatim>\<open>getAllTasks\<close> after \<^verbatim>\<open>clearAllTasks\<close> returns the
  empty collection (lemma \<open>clearAllTasks_web\<close>). On the native backend
  \<^verbatim>\<open>clearAllTasks\<close> removes the \<^verbatim>\<open>localStorage\<close> item and leaves the table alone:
  a table with one row still has it afterwards.
\<close>

theorem clearAllTasks_native_keeps_rows:
  "getAllTasks native_one = Inr [row_task (stored_row 1 ''a'')]
   \<and> getAllTasks (clearAllTasks native_one) = Inr [row_task (stored_row 1 ''a'')]"
  by (simp add: getAllTasks_def clearAllTasks_def native_one_def native_store_def
      constructor_def sql_select_def)

subsection \<open>Closing\<close>

lemma closeDatabase_web: "isWeb s \<Longrightarrow> closeDatabase c s = s"
  by (simp add: closeDatabase_def)

lemma isWeb_closeDatabase: "isWeb (closeDatabase c s) = isWeb s"
  by (simp add: closeDatabase_def)

lemma db_closeDatabase: "\<not> isWeb s \<Longrightarrow> db (closeDatabase c s) = (db s \<and> \<not> c)"
  by (simp add: closeDatabase_def)

lemma fold_closeDatabase_web: "isWeb s \<Longrightarrow> fold closeDatabase cs s = s"
  by (induction cs) (simp_all add: closeDatabase_web)

lemma isWeb_fold_closeDatabase: "isWeb (fold closeDatabase cs s) = isWeb s"
  by (induction cs arbitrary: s) (simp_all add: isWeb_closeDatabase)

lemma db_fold_closeDatabase:
  "\<not> isWeb s \<Longrightarrow> db (fold closeDatabase cs s) = (db s \<and> True \<notin> set cs)"
proof (induction cs arbitrary: s)
  case Nil
  then show ?case by simp
next
  case (Cons c cs)
  then have "\<not> isWeb (closeDatabase c s)" by (simp add: isWeb_closeDatabase)
  from Cons.IH [OF this] Cons.prems show ?case
    by (auto simp: db_closeDatabase)
qed

lemma native_closed_fails:
  assumes "\<not> isWeb s" and "\<not> db s"
  shows "addTask env task s = Inl NotInitialized"
    and "getAllTasks s = Inl NotInitialized"
    and "deleteTask i s = Inl NotInitialized"
    and "updateTask i updates s = Inl NotInitialized"
    and "toggleTaskCompletion i s = Inl NotInitialized"
  using assms
  by (simp_all add: addTask_def getAllTasks_def deleteTask_def updateTask_def
      toggleTaskCompletion_def)

text \<open>On a closed native service every call of a sequence fails, whatever came before
  it, as long as none of them is \<^verbatim>\<open>initializeDatabase\<close>: no identifier is returned
  and the table is left as it was.\<close>

lemma run_closed_native:
  "\<not> isWeb s \<Longrightarrow> \<not> db s \<Longrightarrow> \<forall>b. InitializeDatabase b \<notin> set calls \<Longrightarrow>
     fst (run calls s) = [] \<and> tasks_db (snd (run calls s)) = tasks_db s
     \<and> \<not> db (snd (run calls s))"
proof (induction calls arbitrary: s)
  case Nil
  then show ?case by simp
next
  case (Cons c calls)
  from Cons.prems(3) have rest: "\<forall>b. InitializeDatabase b \<notin> set calls" by simp
  note closed = native_closed_fails [OF Cons.prems(1,2)]
  show ?case
  proof (cases c)
    case (InitializeDatabase b)
    with Cons.prems(3) have False by auto
    then show ?thesis ..
  next
    case (AddTask env task)
    with Cons.IH [OF Cons.prems(1,2) rest] closed(1) [of env task] show ?thesis by simp
  next
    case (DeleteTask i)
    with Cons.IH [OF Cons.prems(1,2) rest] closed(3) [of i] show ?thesis by simp
  next
    case (UpdateTask i updates)
    with Cons.IH [OF Cons.prems(1,2) rest] closed(4) [of i updates] show ?thesis by simp
  next
    case (ToggleTaskCompletion i)
    with Cons.IH [OF Cons.prems(1,2) rest] closed(5) [of i] show ?thesis by simp
  next
    case (CloseDatabase b)
    have "closeDatabase b s = s"
      using Cons.prems(2) by (simp add: closeDatabase_def)
    with Cons.IH [OF Cons.prems(1,2) rest] CloseDatabase show ?thesis by simp
  next
    case ClearAllTasks
    have "\<not> isWeb (clearAllTasks s)" "\<not> db (clearAllTasks s)"
      "tasks_db (clearAllTasks s) = tasks_db s"
      using Cons.prems(1,2) by (simp_all add: clearAllTasks_def)
    with Cons.IH [OF this(1,2) rest] ClearAllTasks show ?thesis by simp
  qed
qed

text \<open>
  C3, as stated, fails on the browser backend: \<^verbatim>\<open>closeDatabase\<close> only logs there,
  and \<^verbatim>\<open>getAllTasks\<close> after it returns the stored task.
\<close>

theorem closeDatabase_web_counterexample:
  "getAllTasks (closeDatabase True web_one) = Inr [stored_task 1 ''a'']
   \<and> getAllTasks (closeDatabase True web_one) \<noteq> Inl NotInitialized"
  by (simp add: closeDatabase_def getAllTasks_def getStoredTasks_def web_one_def
      web_store_def constructor_def stored_task_def js_or_def truthy_def)

text \<open>
  C3, amended. On the native backend, after any sequence of \<^verbatim>\<open>closeDatabase\<close>
  calls of which at least one completed the driver's \<^verbatim>\<open>close\<close>, each of
  \<^verbatim>\<open>addTask\<close>, \<^verbatim>\<open>getAllTasks\<close>, \<^verbatim>\<open>deleteTask\<close>, \<^verbatim>\<open>updateTask\<close> and
  \<^verbatim>\<open>toggleTaskCompletion\<close> fails with \<open>NotInitialized\<close>. On the browser backend
  \<^verbatim>\<open>closeDatabase\<close> leaves the service as it was.
\<close>

theorem closeDatabase_native_NotInitialized:
  assumes "\<not> isWeb s" and "True \<in> set outcomes" and "isWeb w"
  shows "addTask env task (fold closeDatabase outcomes s) = Inl NotInitialized
       \<and> getAllTasks (fold closeDatabase outcomes s) = Inl NotInitialized
       \<and> deleteTask i (fold closeDatabase outcomes s) = Inl NotInitialized
       \<and> updateTask i updates (fold closeDatabase outcomes s) = Inl NotInitialized
       \<and> toggleTaskCompletion i (fold closeDatabase outcomes s) = Inl NotInitialized
       \<and> fold closeDatabase outcomes w = w"
proof -
  have n: "\<not> isWeb (fold closeDatabase outcomes s)"
    using assms(1) by (simp add: isWeb_fold_closeDatabase)
  have c: "\<not> db (fold closeDatabase outcomes s)"
    using assms(1,2) by (simp add: db_fold_closeDatabase)
  from native_closed_fails [OF n c] fold_closeDatabase_web [OF assms(3)]
  show ?thesis by simp
qed

theorem closeDatabase_native_NotInitialized_witness:
  "\<not> isWeb native_one \<and> True \<in> set [True, True] \<and> isWeb web_one
   \<and> getAllTasks native_one = Inr [row_task (stored_row 1 ''a'')]
   \<and> addTask (example_env 1) (example_task ''b'') (fold closeDatabase [True, True] native_one)
       = Inl NotInitialized
   \<and> getAllTasks (fold closeDatabase [True, True] native_one) = Inl NotInitialized
   \<and> deleteTask 1 (fold closeDatabase [True, True] native_one) = Inl NotInitialized
   \<and> updateTask 1 no_update (fold closeDatabase [True, True] native_one) = Inl NotInitialized
   \<and> toggleTaskCompletion 1 (fold closeDatabase [True, True] native_one) = Inl NotInitialized
   \<and> fold closeDatabase [True, True] web_one = web_one"
proof -
  have n: "\<not> isWeb native_one"
    by (simp add: native_one_def native_store_def constructor_def)
  have t: "True \<in> set [True, True]" by simp
  have w: "isWeb web_one"
    by (simp add: web_one_def web_store_def constructor_def)
  have r: "getAllTasks native_one = Inr [row_task (stored_row 1 ''a'')]"
    by (simp add: getAllTasks_def native_one_def native_store_def constructor_def
        sql_select_def)
  from closeDatabase_native_NotInitialized [OF n t w] n t w r show ?thesis by simp
qed

subsection \<open>Sequences of additions\<close>

lemma next_rowid_above: "sqlite_sequence d < next_rowid d"
  by (simp add: next_rowid_def)

lemma addTask_web_result:
  assumes "isWeb s" and "addTask env task s = Inr (i, s')"
  shows "i = generateId env \<and> isWeb s' \<and>
         (\<exists>new. getStoredTasks s' = new # getStoredTasks s \<and> text_t new = Some (new_text task)
                \<and> created_at new = Some (new_date env))"
  using assms
  by (auto simp: addTask_web isWeb_save getStoredTasks_save task_properties_def
      split: sum.splits)

lemma addTask_native_result:
  assumes "\<not> isWeb s" and "addTask env task s = Inr (i, s')"
  shows "i = real_of_int (next_rowid (tasks_db s)) \<and> \<not> isWeb s' \<and> db s'
         \<and> sqlite_sequence (tasks_db s') = next_rowid (tasks_db s)
         \<and> (\<exists>new. rows (tasks_db s') = rows (tasks_db s) @ [new] \<and> col_text new = new_text task
                \<and> col_created_at new = current_timestamp env)"
proof -
  from assms have o: "db s"
    by (auto simp: addTask_def split: if_splits)
  from assms o show ?thesis
    by (auto simp: addTask_native)
qed

text \<open>One call leaves the backend flag as it is and never lowers the largest rowid
  given so far; an \<^verbatim>\<open>addTask\<close> on the native backend returns a larger one.\<close>

lemma run_step_native:
  assumes "\<not> isWeb s"
  shows "initializeDatabase b s = Inr s' \<Longrightarrow> \<not> isWeb s' \<and> tasks_db s' = tasks_db s"
    and "deleteTask i s = Inr s' \<Longrightarrow>
           \<not> isWeb s' \<and> sqlite_sequence (tasks_db s') = sqlite_sequence (tasks_db s)"
    and "updateTask i updates s = Inr s' \<Longrightarrow>
           \<not> isWeb s' \<and> sqlite_sequence (tasks_db s') = sqlite_sequence (tasks_db s)"
    and "toggleTaskCompletion i s = Inr s' \<Longrightarrow>
           \<not> isWeb s' \<and> sqlite_sequence (tasks_db s') = sqlite_sequence (tasks_db s)"
    and "\<not> isWeb (closeDatabase b s) \<and> tasks_db (closeDatabase b s) = tasks_db s"
    and "\<not> isWeb (clearAllTasks s) \<and> tasks_db (clearAllTasks s) = tasks_db s"
  using assms
  by (auto simp: initializeDatabase_def deleteTask_def updateTask_def toggleTaskCompletion_def
      closeDatabase_def clearAllTasks_def sql_delete_def sql_update_def sql_toggle_def Let_def
      split: if_splits)

lemma run_other_native:
  assumes "\<not> isWeb s" and "\<And>env task. c \<noteq> AddTask env task"
  shows "\<exists>s1. run (c # calls) s = run calls s1 \<and> \<not> isWeb s1
           \<and> sqlite_sequence (tasks_db s1) = sqlite_sequence (tasks_db s)"
proof (cases c)
  case (InitializeDatabase b)
  with assms(1) run_step_native(1) [OF assms(1), of b] show ?thesis
    by (cases "initializeDatabase b s") auto
next
  case (AddTask env task)
  with assms(2) [of env task] show ?thesis by simp
next
  case (DeleteTask i)
  with assms(1) run_step_native(2) [OF assms(1), of i] show ?thesis
    by (cases "deleteTask i s") auto
next
  case (UpdateTask i updates)
  with assms(1) run_step_native(3) [OF assms(1), of i updates] show ?thesis
    by (cases "updateTask i updates s") auto
next
  case (ToggleTaskCompletion i)
  with assms(1) run_step_native(4) [OF assms(1), of i] show ?thesis
    by (cases "toggleTaskCompletion i s") auto
next
  case (CloseDatabase b)
  with run_step_native(5) [OF assms(1), of b] show ?thesis by auto
next
  case ClearAllTasks
  with run_step_native(6) [OF assms(1)] show ?thesis by auto
qed

lemma run_add_failed: "addTask env task s = Inl e \<Longrightarrow> run (AddTask env task # calls) s = run calls s"
  by simp

lemma run_add_done:
  "addTask env task s = Inr (i, s1) \<Longrightarrow> run calls s1 = (ids1, s') \<Longrightarrow>
     run (AddTask env task # calls) s = (i # ids1, s')"
  by simp

lemma run_native_ids:
  "\<not> isWeb s \<Longrightarrow> run calls s = (ids, s') \<Longrightarrow>
     sorted_wrt (<) ids \<and> (\<forall>j\<in>set ids. real_of_int (sqlite_sequence (tasks_db s)) < j)"
proof (induction calls arbitrary: s ids s')
  case Nil
  then show ?case by simp
next
  case (Cons c calls)
  show ?case
  proof (cases "\<exists>env task. c = AddTask env task")
    case False
    then have "\<And>env task. c \<noteq> AddTask env task" by simp
    from run_other_native [OF Cons.prems(1) this, of calls] obtain s1 where
      r: "run (c # calls) s = run calls s1" and n1: "\<not> isWeb s1"
      and q: "sqlite_sequence (tasks_db s1) = sqlite_sequence (tasks_db s)"
      by blast
    from Cons.prems(2) r have "run calls s1 = (ids, s')" by simp
    from Cons.IH [OF n1 this] show ?thesis by (simp add: q)
  next
    case True
    then obtain env task where c: "c = AddTask env task" by blast
    show ?thesis
    proof (cases "addTask env task s")
      case (Inl e)
      with Cons.prems(2) have "run calls s = (ids, s')" by (simp add: c)
      from Cons.IH [OF Cons.prems(1) this] show ?thesis .
    next
      case (Inr r)
      obtain i s1 where r: "r = (i, s1)" by (cases r)
      obtain ids1 s2 where rest: "run calls s1 = (ids1, s2)" by (cases "run calls s1")
      from Inr r have one: "addTask env task s = Inr (i, s1)" by simp
      from run_add_done [OF one rest] Cons.prems(2)
      have ids: "ids = i # ids1" and s2: "s2 = s'" by (simp_all add: c)
      from addTask_native_result [OF Cons.prems(1) one]
      have i: "i = real_of_int (next_rowid (tasks_db s))" and n1: "\<not> isWeb s1"
        and q: "sqlite_sequence (tasks_db s1) = next_rowid (tasks_db s)" by simp_all
      from Cons.IH [OF n1 rest]
      have sorted1: "sorted_wrt (<) ids1" and above: "\<forall>j\<in>set ids1. i < j"
        by (simp_all add: q i)
      have "real_of_int (sqlite_sequence (tasks_db s)) < i"
        by (simp add: i next_rowid_above)
      with sorted1 above show ?thesis
        by (auto simp: ids)
    qed
  qed
qed

lemma run_step_web:
  assumes "isWeb s"
  shows "initializeDatabase b s = Inr s' \<Longrightarrow> isWeb s'"
    and "deleteTask i s = Inr s' \<Longrightarrow> isWeb s'"
    and "updateTask i updates s = Inr s' \<Longrightarrow> isWeb s'"
    and "toggleTaskCompletion i s = Inr s' \<Longrightarrow> isWeb s'"
    and "isWeb (closeDatabase b s)"
    and "isWeb (clearAllTasks s)"
  using assms
  by (auto simp: initializeDatabase_def deleteTask_def updateTask_def toggleTaskCompletion_def
      closeDatabase_def clearAllTasks_def isWeb_save Let_def
      split: if_splits option.splits)

lemma run_other_web:
  assumes "isWeb s" and "\<And>env task. c \<noteq> AddTask env task"
  shows "\<exists>s1. run (c # calls) s = run calls s1 \<and> isWeb s1
           \<and> add_envs (c # calls) = add_envs calls"
proof (cases c)
  case (InitializeDatabase b)
  with assms(1) run_step_web(1) [OF assms(1), of b] show ?thesis
    by (cases "initializeDatabase b s") auto
next
  case (AddTask env task)
  with assms(2) [of env task] show ?thesis by simp
next
  case (DeleteTask i)
  with assms(1) run_step_web(2) [OF assms(1), of i] show ?thesis
    by (cases "deleteTask i s") auto
next
  case (UpdateTask i updates)
  with assms(1) run_step_web(3) [OF assms(1), of i updates] show ?thesis
    by (cases "updateTask i updates s") auto
next
  case (ToggleTaskCompletion i)
  with assms(1) run_step_web(4) [OF assms(1), of i] show ?thesis
    by (cases "toggleTaskCompletion i s") auto
next
  case (CloseDatabase b)
  with run_step_web(5) [OF assms(1), of b] show ?thesis by auto
next
  case ClearAllTasks
  with run_step_web(6) [OF assms(1)] show ?thesis by auto
qed

lemma run_web_ids:
  "isWeb s \<Longrightarrow> run calls s = (ids, s') \<Longrightarrow>
     list_all valid_reading (add_envs calls) \<Longrightarrow> sorted_wrt apart (add_envs calls) \<Longrightarrow>
     set ids \<subseteq> generateId ` set (add_envs calls) \<and> distinct ids"
proof (induction calls arbitrary: s ids s')
  case Nil
  then show ?case by simp
next
  case (Cons c calls)
  show ?case
  proof (cases "\<exists>env task. c = AddTask env task")
    case False
    then have "\<And>env task. c \<noteq> AddTask env task" by simp
    from run_other_web [OF Cons.prems(1) this, of calls] obtain s1 where
      r: "run (c # calls) s = run calls s1" and w1: "isWeb s1"
      and e: "add_envs (c # calls) = add_envs calls"
      by blast
    from Cons.prems(2) r have rest: "run calls s1 = (ids, s')" by simp
    from Cons.prems(3,4) have "list_all valid_reading (add_envs calls)"
      "sorted_wrt apart (add_envs calls)" by (simp_all only: e)
    from Cons.IH [OF w1 rest this] show ?thesis by (simp only: e)
  next
    case True
    then obtain env task where c: "c = AddTask env task" by blast
    from Cons.prems(3,4) have v: "valid_reading env"
      and vs: "list_all valid_reading (add_envs calls)"
      and far: "\<forall>env'\<in>set (add_envs calls). apart env env'"
      and fars: "sorted_wrt apart (add_envs calls)"
      by (simp_all add: c)
    show ?thesis
    proof (cases "addTask env task s")
      case (Inl e)
      with Cons.prems(2) have "run calls s = (ids, s')" by (simp add: c)
      from Cons.IH [OF Cons.prems(1) this vs fars] show ?thesis by (auto simp: c)
    next
      case (Inr r)
      obtain i s1 where r: "r = (i, s1)" by (cases r)
      obtain ids1 s2 where rest: "run calls s1 = (ids1, s2)" by (cases "run calls s1")
      from Inr r have one: "addTask env task s = Inr (i, s1)" by simp
      from run_add_done [OF one rest] Cons.prems(2)
      have ids: "ids = i # ids1" by (simp add: c)
      from addTask_web_result [OF Cons.prems(1) one]
      have i: "i = generateId env" and w1: "isWeb s1" by simp_all
      from Cons.IH [OF w1 rest vs fars]
      have sub: "set ids1 \<subseteq> generateId ` set (add_envs calls)" and d1: "distinct ids1"
        by simp_all
      have "i \<notin> set ids1"
      proof
        assume "i \<in> set ids1"
        with sub obtain env' where m: "env' \<in> set (add_envs calls)"
          and same: "i = generateId env'" by blast
        from vs m have "valid_reading env'" by (simp add: list_all_iff)
        from generateId_apart [OF v this] far m same i show False by simp
      qed
      with sub d1 show ?thesis by (auto simp: ids i c)
    qed
  qed
qed

lemma increasing_distinct: "sorted_wrt (<) xs \<Longrightarrow> distinct xs"
  for xs :: "real list"
  by (induction xs) auto

text \<open>
  C6, as stated, fails on the browser backend. Two calls of \<^verbatim>\<open>addTask\<close> in the same
  millisecond return the same identifier although \<^verbatim>\<open>Math.random()\<close> gave them
  different numbers, \<open>1/2\<close> and \<open>1/2 + 1/2\<^sup>2\<^sup>0\<close>: at today's \<^verbatim>\<open>Date.now()\<close> a
  double keeps twelve binary digits after the point. Two calls in adjacent milliseconds
  return the same identifier when the first sum rounds up to the next millisecond, as
  with the random number \<open>1 - 1/2\<^sup>2\<^sup>0\<close>.
\<close>

theorem generateId_counterexample:
  "fst (run same_millisecond web_store) = [1700000000000 + 1 / 2, 1700000000000 + 1 / 2]
   \<and> list_all valid_reading (add_envs same_millisecond)
   \<and> fst (run adjacent_milliseconds web_store) = [1700000000001, 1700000000001]
   \<and> list_all valid_reading (add_envs adjacent_milliseconds)"
  by (simp add: same_millisecond_def adjacent_milliseconds_def valid_reading_def
      addTask_def web_store_def constructor_def example_task_def truthy_def
      generateId_def example_env_def to_double_def round_half_even_def Let_def isWeb_save
      split: prod.splits)

text \<open>
  C6, amended. Take any sequence of calls on one service and the identifiers that its
  \<^verbatim>\<open>addTask\<close> calls return. On the native backend these identifiers are strictly
  increasing, hence pairwise distinct, also across deletions and across closing and
  opening the database again. On the browser backend they are pairwise distinct whenever
  the \<^verbatim>\<open>Date.now()\<close> readings of the \<^verbatim>\<open>addTask\<close> calls are pairwise at least two
  milliseconds apart.
\<close>

theorem run_identifiers:
  assumes "run calls s = (ids, s')"
  shows "if isWeb s
         then list_all valid_reading (add_envs calls) \<and> sorted_wrt apart (add_envs calls)
              \<longrightarrow> distinct ids
         else sorted_wrt (<) ids \<and> distinct ids"
proof (cases "isWeb s")
  case True
  from run_web_ids [OF True assms] True show ?thesis by simp
next
  case False
  from run_native_ids [OF False assms]
  have "sorted_wrt (<) ids" by simp
  moreover from this have "distinct ids"
    by (rule increasing_distinct)
  ultimately show ?thesis
    using False by simp
qed

theorem run_identifiers_witness:
  "run [AddTask (example_env 1) (example_task ''a''), DeleteTask (3 / 2),
        AddTask (example_env 3) (example_task ''b'')] web_store =
     ([3 / 2, 7 / 2],
      snd (run [AddTask (example_env 1) (example_task ''a''), DeleteTask (3 / 2),
                AddTask (example_env 3) (example_task ''b'')] web_store))
   \<and> isWeb web_store
   \<and> list_all valid_reading (add_envs
        [AddTask (example_env 1) (example_task ''a''), DeleteTask (3 / 2),
         AddTask (example_env 3) (example_task ''b'')])
   \<and> sorted_wrt apart (add_envs
        [AddTask (example_env 1) (example_task ''a''), DeleteTask (3 / 2),
         AddTask (example_env 3) (example_task ''b'')])
   \<and> distinct [3 / 2, 7 / 2 :: real]
   \<and> run [AddTask (example_env 1) (example_task ''a''), DeleteTask 1,
          AddTask (example_env 1) (example_task ''b'')] native_store =
     ([1, 2],
      snd (run [AddTask (example_env 1) (example_task ''a''), DeleteTask 1,
                AddTask (example_env 1) (example_task ''b'')] native_store))
   \<and> \<not> isWeb native_store
   \<and> sorted_wrt (<) [1, 2 :: real] \<and> distinct [1, 2 :: real]"
proof -
  let ?wc = "[AddTask (example_env 1) (example_task ''a''), DeleteTask (3 / 2),
              AddTask (example_env 3) (example_task ''b'')]"
  let ?nc = "[AddTask (example_env 1) (example_task ''a''), DeleteTask 1,
              AddTask (example_env 1) (example_task ''b'')]"
  have w: "run ?wc web_store = ([3 / 2, 7 / 2], snd (run ?wc web_store))"
    by (simp add: addTask_def deleteTask_def web_store_def constructor_def example_task_def
        truthy_def generateId_example_env Let_def isWeb_save split: prod.splits)
  have n: "run ?nc native_store = ([1, 2], snd (run ?nc native_store))"
    by (simp add: addTask_def deleteTask_def native_store_def constructor_def sql_insert_def
        sql_delete_def next_rowid_def empty_db_def Let_def split: prod.splits)
  have iw: "isWeb web_store" and nw: "\<not> isWeb native_store"
    by (simp_all add: web_store_def native_store_def constructor_def)
  have v: "list_all valid_reading (add_envs ?wc)"
    by (simp add: valid_reading_def example_env_def)
  have a: "sorted_wrt apart (add_envs ?wc)"
    by (simp add: apart_def example_env_def)
  from run_identifiers [OF w] run_identifiers [OF n] w n iw nw v a
  show ?thesis by simp
qed

subsection \<open>The order of the collection read\<close>






lemma sql_select_increasing:
  "sorted_wrt (<) (map col_created_at (rows d)) \<Longrightarrow> sql_select d = rev (rows d)"
  unfolding sql_select_def by (rule sort_key_increasing)

text \<open>
  On the native backend three tasks added within one second get the same
  \<^verbatim>\<open>created_at\<close>, the only key of \<^verbatim>\<open>ORDER BY created_at DESC\<close>, and the rows come
  back in the order of their rowids, oldest first: \<open>a\<close>, \<open>b\<close>, \<open>c\<close>, where the
  browser backend returns \<open>c\<close>, \<open>b\<close>, \<open>a\<close>.
\<close>

lemma native_same_second_oldest_first:
  "map_sum id (map text_t) (scenario (three_calls 5 5 5) native_store) =
     Inr [Some ''a'', Some ''b'', Some ''c'']"
  "map_sum id (map text_t) (scenario (three_calls 5 5 5) web_store) =
     Inr [Some ''c'', Some ''b'', Some ''a'']"
  by (simp_all add: scenario_def three_calls_def addTask_def native_store_def web_store_def
      constructor_def sql_insert_def next_rowid_def empty_db_def Let_def getAllTasks_def
      sql_select_def row_task_def example_env_def example_task_def truthy_def
      task_properties_def saveTasksToStorage_def getStoredTasks_def)




subsection \<open>Updating\<close>

lemma updateTask_web_found:
  "isWeb s \<Longrightarrow> findIndex (\<lambda>task. id_t task = Some i) (getStoredTasks s) = Some k \<Longrightarrow>
     updateTask i updates s =
       Inr (saveTasksToStorage
              ((getStoredTasks s)[k := spread (getStoredTasks s ! k) updates]) s)"
  by (simp add: updateTask_def Let_def)

lemma updateTask_native:
  "\<not> isWeb s \<Longrightarrow> db s \<Longrightarrow>
     updateTask i updates s =
       (if update_fields updates = [] then Inr s
        else Inr (s\<lparr>tasks_db := sql_update (update_fields updates) i (tasks_db s),
                     run_calls := Suc (run_calls s)\<rparr>))"
  by (simp add: updateTask_def Let_def)

lemma spread_no_update: "spread task no_update = task"
  by (simp add: spread_def spread_property_def no_update_def)

lemma update_fields_no_update: "update_fields no_update = []"
  by (simp add: update_fields_def no_update_def)

lemma fold_assign_columns:
  "col_id (fold assign (update_fields updates) r) = col_id r"
  "col_created_at (fold assign (update_fields updates) r) = col_created_at r"
  "col_image_base64 (fold assign (update_fields updates) r) = col_image_base64 r"
  "col_text (fold assign (update_fields updates) r) =
     (case u_text updates of Value v \<Rightarrow> v | _ \<Rightarrow> col_text r)"
  "col_image_filepath (fold assign (update_fields updates) r) =
     (case u_image_filepath updates of Value v \<Rightarrow> v | _ \<Rightarrow> col_image_filepath r)"
  "col_image_webview_path (fold assign (update_fields updates) r) =
     (case u_image_webview_path updates of Value v \<Rightarrow> v | _ \<Rightarrow> col_image_webview_path r)"
  "col_completed (fold assign (update_fields updates) r) =
     (case u_completed updates of
        Value v \<Rightarrow> if v then 1 else 0 | _ \<Rightarrow> col_completed r)"
  by (simp_all add: update_fields_def split: property.splits)

text \<open>The native branch has no assignment for \<^verbatim>\<open>image_base64\<close>: an update that
  carries only this field issues no statement and changes nothing, where the browser
  branch stores the new value.\<close>

lemma updateTask_native_ignores_image_base64:
  "updateTask 1 (no_update\<lparr>u_image_base64 := Value ''data:x''\<rparr>) native_one = Inr native_one"
  "map_sum id (map image_base64 \<circ> getStoredTasks)
     (updateTask 1 (no_update\<lparr>u_image_base64 := Value ''data:x''\<rparr>) web_one) =
     Inr [Some ''data:x'']"
  by (simp_all add: updateTask_def update_fields_def no_update_def native_one_def
      native_store_def web_one_def web_store_def constructor_def getStoredTasks_def
      saveTasksToStorage_def stored_task_def spread_def spread_property_def Let_def)

text \<open>
  C7, as stated, fails on the browser backend for the empty update: \<^verbatim>\<open>updateTask\<close>
  writes the whole collection back with \<^verbatim>\<open>localStorage.setItem\<close>, one write, although
  the stored records are unchanged.
\<close>

theorem updateTask_empty_writes_counterexample:
  "setItem_calls web_one = 0
   \<and> updateTask 1 no_update web_one = Inr (web_one\<lparr>setItem_calls := 1\<rparr>)"
  by (simp add: updateTask_def Let_def getStoredTasks_def saveTasksToStorage_def web_one_def
      web_store_def constructor_def stored_task_def spread_def spread_property_def
      no_update_def)

text \<open>
  C7, amended. A property of the partial update is absent, or present with the value
  \<^verbatim>\<open>undefined\<close>, or present with a value. On the browser backend, for an identifier
  whose first record is at position \<open>k\<close> of the stored collection, \<^verbatim>\<open>updateTask\<close>
  applies to that record exactly the properties present in the update: one with a value
  is set, one that is \<^verbatim>\<open>undefined\<close> is erased from the stored record (\<^verbatim>\<open>completed\<close>
  then reads false), an absent one is kept; \<^verbatim>\<open>id\<close>, \<^verbatim>\<open>created_at\<close> and every other
  record are as they were. It always writes the collection back once, also for the empty
  update, which leaves every stored record unchanged. On the native backend
  \<^verbatim>\<open>updateTask\<close> sets in the rows with the identifier the columns \<^verbatim>\<open>text\<close>,
  \<^verbatim>\<open>image_filepath\<close>, \<^verbatim>\<open>image_webview_path\<close> and \<^verbatim>\<open>completed\<close> that the update
  carries with a value and keeps these four otherwise; it keeps \<^verbatim>\<open>id\<close> and
  \<^verbatim>\<open>created_at\<close>, keeps \<^verbatim>\<open>image_base64\<close> when the update has none, and leaves the
  other rows as they were. It issues one statement when one of the four columns gets a
  value, and for the empty update it issues none and leaves the service unchanged.
\<close>

theorem updateTask_frame:
  assumes "isWeb w"
    and "findIndex (\<lambda>task. id_t task = Some i) (getStoredTasks w) = Some k"
    and "\<not> isWeb n" and "db n"
  shows "\<exists>w' n'.
       updateTask i updates w = Inr w'
     \<and> length (getStoredTasks w') = length (getStoredTasks w)
     \<and> getStoredTasks w' ! k =
         (getStoredTasks w ! k)
           \<lparr>text_t := (case u_text updates of
                         Absent \<Rightarrow> text_t (getStoredTasks w ! k)
                       | Undefined \<Rightarrow> None | Value v \<Rightarrow> Some v),
            image_filepath := (case u_image_filepath updates of
                         Absent \<Rightarrow> image_filepath (getStoredTasks w ! k)
                       | Undefined \<Rightarrow> None | Value v \<Rightarrow> Some v),
            image_webview_path := (case u_image_webview_path updates of
                         Absent \<Rightarrow> image_webview_path (getStoredTasks w ! k)
                       | Undefined \<Rightarrow> None | Value v \<Rightarrow> Some v),
            image_base64 := (case u_image_base64 updates of
                         Absent \<Rightarrow> image_base64 (getStoredTasks w ! k)
                       | Undefined \<Rightarrow> None | Value v \<Rightarrow> Some v),
            completed := (case u_completed updates of
                         Absent \<Rightarrow> completed (getStoredTasks w ! k)
                       | Undefined \<Rightarrow> False | Value v \<Rightarrow> v)\<rparr>
     \<and> (\<forall>m. m \<noteq> k \<longrightarrow> getStoredTasks w' ! m = getStoredTasks w ! m)
     \<and> setItem_calls w' = Suc (setItem_calls w)
     \<and> (updates = no_update \<longrightarrow> getStoredTasks w' = getStoredTasks w)
     \<and> updateTask j updates' n = Inr n'
     \<and> length (rows (tasks_db n')) = length (rows (tasks_db n))
     \<and> (\<forall>m < length (rows (tasks_db n)).
           if real_of_int (col_id (rows (tasks_db n) ! m)) = j
           then col_id (rows (tasks_db n') ! m) = col_id (rows (tasks_db n) ! m)
              \<and> col_created_at (rows (tasks_db n') ! m) = col_created_at (rows (tasks_db n) ! m)
              \<and> col_text (rows (tasks_db n') ! m) =
                  (case u_text updates' of
                     Value v \<Rightarrow> v | _ \<Rightarrow> col_text (rows (tasks_db n) ! m))
              \<and> col_image_filepath (rows (tasks_db n') ! m) =
                  (case u_image_filepath updates' of
                     Value v \<Rightarrow> v | _ \<Rightarrow> col_image_filepath (rows (tasks_db n) ! m))
              \<and> col_image_webview_path (rows (tasks_db n') ! m) =
                  (case u_image_webview_path updates' of
                     Value v \<Rightarrow> v | _ \<Rightarrow> col_image_webview_path (rows (tasks_db n) ! m))
              \<and> col_completed (rows (tasks_db n') ! m) =
                  (case u_completed updates' of
                     Value v \<Rightarrow> if v then 1 else 0
                   | _ \<Rightarrow> col_completed (rows (tasks_db n) ! m))
              \<and> (u_image_base64 updates' = Absent \<longrightarrow>
                    col_image_base64 (rows (tasks_db n') ! m) =
                    col_image_base64 (rows (tasks_db n) ! m))
           else rows (tasks_db n') ! m = rows (tasks_db n) ! m)
     \<and> (update_fields updates' \<noteq> [] \<longrightarrow> run_calls n' = Suc (run_calls n))
     \<and> (updates' = no_update \<longrightarrow> n' = n)"
proof -
  let ?tasks = "getStoredTasks w"
  let ?w' = "saveTasksToStorage (?tasks[k := spread (?tasks ! k) updates]) w"
  let ?f = "\<lambda>r. if real_of_int (col_id r) = j then fold assign (update_fields updates') r
                else r"
  let ?n' = "if update_fields updates' = [] then n
             else n\<lparr>tasks_db := sql_update (update_fields updates') j (tasks_db n),
                    run_calls := Suc (run_calls n)\<rparr>"
  from assms(2) have len: "k < length ?tasks"
    by (simp add: findIndex_Some)
  have uw: "updateTask i updates w = Inr ?w'"
    using assms(1,2) by (rule updateTask_web_found)
  have st: "getStoredTasks ?w' = ?tasks[k := spread (?tasks ! k) updates]"
    by (rule getStoredTasks_save)
  have w1: "length (getStoredTasks ?w') = length ?tasks"
    by (simp add: st)
  have w2: "getStoredTasks ?w' ! k = spread (?tasks ! k) updates"
    using len by (simp add: st)
  have w3: "\<forall>m. m \<noteq> k \<longrightarrow> getStoredTasks ?w' ! m = ?tasks ! m"
    by (simp add: st)
  have w4: "setItem_calls ?w' = Suc (setItem_calls w)"
    by (simp add: saveTasksToStorage_def)
  have w5: "updates = no_update \<longrightarrow> getStoredTasks ?w' = ?tasks"
    by (simp add: getStoredTasks_save spread_no_update)
  have un: "updateTask j updates' n = Inr ?n'"
    using assms(3,4) by (simp add: updateTask_native)
  have n1: "rows (tasks_db ?n') = map ?f (rows (tasks_db n))"
  proof (cases "update_fields updates' = []")
    case True
    then show ?thesis by (simp cong: if_cong)
  next
    case False
    then show ?thesis by (simp add: sql_update_def)
  qed
  have n0: "length (rows (tasks_db ?n')) = length (rows (tasks_db n))"
    by (simp only: n1 length_map)
  have n2: "\<forall>m < length (rows (tasks_db n)).
           if real_of_int (col_id (rows (tasks_db n) ! m)) = j
           then col_id (rows (tasks_db ?n') ! m) = col_id (rows (tasks_db n) ! m)
              \<and> col_created_at (rows (tasks_db ?n') ! m) = col_created_at (rows (tasks_db n) ! m)
              \<and> col_text (rows (tasks_db ?n') ! m) =
                  (case u_text updates' of
                     Value v \<Rightarrow> v | _ \<Rightarrow> col_text (rows (tasks_db n) ! m))
              \<and> col_image_filepath (rows (tasks_db ?n') ! m) =
                  (case u_image_filepath updates' of
                     Value v \<Rightarrow> v | _ \<Rightarrow> col_image_filepath (rows (tasks_db n) ! m))
              \<and> col_image_webview_path (rows (tasks_db ?n') ! m) =
                  (case u_image_webview_path updates' of
                     Value v \<Rightarrow> v | _ \<Rightarrow> col_image_webview_path (rows (tasks_db n) ! m))
              \<and> col_completed (rows (tasks_db ?n') ! m) =
                  (case u_completed updates' of
                     Value v \<Rightarrow> if v then 1 else 0
                   | _ \<Rightarrow> col_completed (rows (tasks_db n) ! m))
              \<and> (u_image_base64 updates' = Absent \<longrightarrow>
                    col_image_base64 (rows (tasks_db ?n') ! m) =
                    col_image_base64 (rows (tasks_db n) ! m))
           else rows (tasks_db ?n') ! m = rows (tasks_db n) ! m"
  proof (intro allI impI)
    fix m assume m: "m < length (rows (tasks_db n))"
    have at: "rows (tasks_db ?n') ! m = ?f (rows (tasks_db n) ! m)"
      using m by (simp only: n1 nth_map)
    show "if real_of_int (col_id (rows (tasks_db n) ! m)) = j
           then col_id (rows (tasks_db ?n') ! m) = col_id (rows (tasks_db n) ! m)
              \<and> col_created_at (rows (tasks_db ?n') ! m) = col_created_at (rows (tasks_db n) ! m)
              \<and> col_text (rows (tasks_db ?n') ! m) =
                  (case u_text updates' of
                     Value v \<Rightarrow> v | _ \<Rightarrow> col_text (rows (tasks_db n) ! m))
              \<and> col_image_filepath (rows (tasks_db ?n') ! m) =
                  (case u_image_filepath updates' of
                     Value v \<Rightarrow> v | _ \<Rightarrow> col_image_filepath (rows (tasks_db n) ! m))
              \<and> col_image_webview_path (rows (tasks_db ?n') ! m) =
                  (case u_image_webview_path updates' of
                     Value v \<Rightarrow> v | _ \<Rightarrow> col_image_webview_path (rows (tasks_db n) ! m))
              \<and> col_completed (rows (tasks_db ?n') ! m) =
                  (case u_completed updates' of
                     Value v \<Rightarrow> if v then 1 else 0
                   | _ \<Rightarrow> col_completed (rows (tasks_db n) ! m))
              \<and> (u_image_base64 updates' = Absent \<longrightarrow>
                    col_image_base64 (rows (tasks_db ?n') ! m) =
                    col_image_base64 (rows (tasks_db n) ! m))
           else rows (tasks_db ?n') ! m = rows (tasks_db n) ! m"
    proof (cases "real_of_int (col_id (rows (tasks_db n) ! m)) = j")
      case True
      have "rows (tasks_db ?n') ! m = fold assign (update_fields updates') (rows (tasks_db n) ! m)"
        using True by (simp only: at) simp
      with True show ?thesis
        by (simp add: fold_assign_columns)
    next
      case False
      then show ?thesis
        by (simp only: at) simp
    qed
  qed
  have n3: "update_fields updates' \<noteq> [] \<longrightarrow> run_calls ?n' = Suc (run_calls n)"
    by simp
  have n4: "updates' = no_update \<longrightarrow> ?n' = n"
    by (simp add: update_fields_no_update)
  from uw w1 w2 w3 w4 w5 un n0 n2 n3 n4 show ?thesis
    unfolding spread_def spread_property_def by blast
qed

theorem updateTask_frame_witness:
  "isWeb web_one
   \<and> findIndex (\<lambda>task. id_t task = Some 1) (getStoredTasks web_one) = Some 0
   \<and> \<not> isWeb native_one \<and> db native_one
   \<and> (\<exists>w' n'. updateTask 1 (no_update\<lparr>u_text := Value ''x''\<rparr>) web_one = Inr w'
          \<and> getStoredTasks w' ! 0 = (stored_task 1 ''a'')\<lparr>text_t := Some ''x''\<rparr>
          \<and> setItem_calls w' = 1
          \<and> updateTask 1 (no_update\<lparr>u_text := Value ''x''\<rparr>) native_one = Inr n'
          \<and> col_text (rows (tasks_db n') ! 0) = ''x''
          \<and> col_image_base64 (rows (tasks_db n') ! 0) = []
          \<and> run_calls n' = 1)
   \<and> (\<exists>w'. updateTask 1 (no_update\<lparr>u_text := Undefined\<rparr>) web_one = Inr w'
          \<and> getStoredTasks w' ! 0 = (stored_task 1 ''a'')\<lparr>text_t := None\<rparr>)
   \<and> (\<exists>w'. updateTask 1 no_update web_one = Inr w'
          \<and> getStoredTasks w' = getStoredTasks web_one \<and> setItem_calls w' = 1)
   \<and> updateTask 1 no_update native_one = Inr native_one"
proof -
  have a: "isWeb web_one" "\<not> isWeb native_one" "db native_one"
    by (simp_all add: web_one_def web_store_def native_one_def native_store_def
        constructor_def)
  have st: "getStoredTasks web_one = [stored_task 1 ''a'']"
    by (simp add: getStoredTasks_def web_one_def web_store_def constructor_def)
  have f: "findIndex (\<lambda>task. id_t task = Some 1) (getStoredTasks web_one) = Some 0"
    by (simp add: st stored_task_def)
  have u: "u_image_base64 (no_update\<lparr>u_text := Value ''x''\<rparr>) = Absent"
    "u_text (no_update\<lparr>u_text := Value ''x''\<rparr>) = Value ''x''"
    "u_image_filepath (no_update\<lparr>u_text := Value ''x''\<rparr>) = Absent"
    "u_image_webview_path (no_update\<lparr>u_text := Value ''x''\<rparr>) = Absent"
    "u_completed (no_update\<lparr>u_text := Value ''x''\<rparr>) = Absent"
    "update_fields (no_update\<lparr>u_text := Value ''x''\<rparr>) \<noteq> []"
    by (simp_all add: no_update_def update_fields_def)
  have v: "u_image_base64 (no_update\<lparr>u_text := Undefined\<rparr>) = Absent"
    "u_text (no_update\<lparr>u_text := Undefined\<rparr>) = Undefined"
    "u_image_filepath (no_update\<lparr>u_text := Undefined\<rparr>) = Absent"
    "u_image_webview_path (no_update\<lparr>u_text := Undefined\<rparr>) = Absent"
    "u_completed (no_update\<lparr>u_text := Undefined\<rparr>) = Absent"
    by (simp_all add: no_update_def)
  have r: "rows (tasks_db native_one) = [stored_row 1 ''a'']" "run_calls native_one = 0"
    "setItem_calls web_one = 0" "col_id (stored_row 1 ''a'') = 1"
    "col_image_base64 (stored_row 1 ''a'') = []"
    by (simp_all add: native_one_def native_store_def web_one_def web_store_def
        constructor_def stored_row_def)
  from updateTask_frame [OF a(1) f a(2) a(3),
      of "no_update\<lparr>u_text := Value ''x''\<rparr>" 1 "no_update\<lparr>u_text := Value ''x''\<rparr>"]
  have one: "\<exists>w' n'. updateTask 1 (no_update\<lparr>u_text := Value ''x''\<rparr>) web_one = Inr w'
          \<and> getStoredTasks w' ! 0 = (stored_task 1 ''a'')\<lparr>text_t := Some ''x''\<rparr>
          \<and> setItem_calls w' = 1
          \<and> updateTask 1 (no_update\<lparr>u_text := Value ''x''\<rparr>) native_one = Inr n'
          \<and> col_text (rows (tasks_db n') ! 0) = ''x''
          \<and> col_image_base64 (rows (tasks_db n') ! 0) = []
          \<and> run_calls n' = 1"
    by (auto simp: u st r)
  from updateTask_frame [OF a(1) f a(2) a(3), of "no_update\<lparr>u_text := Undefined\<rparr>" 1 no_update]
  have two: "\<exists>w'. updateTask 1 (no_update\<lparr>u_text := Undefined\<rparr>) web_one = Inr w'
          \<and> getStoredTasks w' ! 0 = (stored_task 1 ''a'')\<lparr>text_t := None\<rparr>"
    by (auto simp: v st)
  from updateTask_frame [OF a(1) f a(2) a(3), of no_update 1 no_update]
  have three: "(\<exists>w'. updateTask 1 no_update web_one = Inr w'
          \<and> getStoredTasks w' = getStoredTasks web_one \<and> setItem_calls w' = 1)
        \<and> updateTask 1 no_update native_one = Inr native_one"
    by (auto simp: r)
  from a f one two three show ?thesis by blast
qed

end
